theory Spec2Isabelle
  imports Complex_Main "HOL-Library.Word"
begin

unbundle bit_operations_syntax

section \<open>Compute system-value lowering (brw_nir_lower_cs_intrinsics.c)\<close>

subsection \<open>The 32-bit ALU operations emitted by the builder\<close>

text \<open>
  The pass emits 32-bit NIR ALU instructions through \<^verbatim>\<open>nir_builder\<close>. Each builder
  call is modelled by the value its instruction computes at run time on \<open>32 word\<close>.
  Unsigned division and remainder by zero yield 0 in NIR, shift counts are taken modulo
  the bit size, and \<^verbatim>\<open>ishr\<close> is the arithmetic (sign-extending) right shift.
\<close>

type_synonym u32 = "32 word"

definition nir_imul :: "u32 \<Rightarrow> u32 \<Rightarrow> u32" where
  "nir_imul a b = a * b"

definition nir_iadd :: "u32 \<Rightarrow> u32 \<Rightarrow> u32" where
  "nir_iadd a b = a + b"

definition nir_iadd_imm :: "u32 \<Rightarrow> int \<Rightarrow> u32" where
  "nir_iadd_imm a c = a + word_of_int c"

definition nir_udiv :: "u32 \<Rightarrow> u32 \<Rightarrow> u32" where
  "nir_udiv a b = (if b = 0 then 0 else a div b)"

definition nir_umod :: "u32 \<Rightarrow> u32 \<Rightarrow> u32" where
  "nir_umod a b = (if b = 0 then 0 else a mod b)"

definition nir_ishl :: "u32 \<Rightarrow> u32 \<Rightarrow> u32" where
  "nir_ishl a s = push_bit (unat (s AND 31)) a"

definition nir_ishr :: "u32 \<Rightarrow> u32 \<Rightarrow> u32" where
  "nir_ishr a s = signed_drop_bit (unat (s AND 31)) a"

definition nir_iand :: "u32 \<Rightarrow> u32 \<Rightarrow> u32" where
  "nir_iand a b = a AND b"

definition nir_ior :: "u32 \<Rightarrow> u32 \<Rightarrow> u32" where
  "nir_ior a b = a OR b"

definition nir_imm_int :: "int \<Rightarrow> u32" where
  "nir_imm_int c = word_of_int c"

subsection \<open>Shader information and the values an invocation reads\<close>

datatype derivative_group_t =
  DERIVATIVE_GROUP_NONE | DERIVATIVE_GROUP_QUADS | DERIVATIVE_GROUP_LINEAR

text \<open>
  \<^verbatim>\<open>nir->info.cs\<close>: the fields the pass reads. The compile-time workgroup size is
  passed to \<^verbatim>\<open>nir_imm_int\<close>, so each dimension is kept as the 32-bit immediate.
\<close>

record cs_info =
  local_size_variable :: bool
  local_size :: "u32 \<times> u32 \<times> u32"
  derivative_group :: derivative_group_t

text \<open>
  The system values that stay after the pass and that the emitted code reads:
  \<^verbatim>\<open>load_subgroup_id\<close>, \<^verbatim>\<open>load_simd_width_intel\<close>,
  \<^verbatim>\<open>load_subgroup_invocation\<close> and, for variable workgroup sizes,
  \<^verbatim>\<open>load_local_group_size\<close>.
\<close>

record invocation =
  load_subgroup_id :: u32
  load_simd_width_intel :: u32
  load_subgroup_invocation :: u32
  load_local_group_size :: "u32 \<times> u32 \<times> u32"

text \<open>Component \<open>c\<close> of a three-component vector (\<^verbatim>\<open>nir_channel\<close>, and C indexing of
  the \<^verbatim>\<open>local_size[3]\<close> array).\<close>

definition nir_channel :: "u32 \<times> u32 \<times> u32 \<Rightarrow> nat \<Rightarrow> u32" where
  "nir_channel v c = (case v of (x, y, z) \<Rightarrow> if c = 0 then x else if c = 1 then y else z)"

subsection \<open>local_invocation_index and local_invocation_id\<close>

text \<open>
  The body of the \<^verbatim>\<open>if (!local_index)\<close> branch of
  \<^verbatim>\<open>lower_cs_intrinsics_convert_block\<close>: the pair
  \<open>(local_index, local_id)\<close> computed by the emitted instructions.
\<close>

definition local_index_and_id :: "cs_info \<Rightarrow> invocation \<Rightarrow> u32 \<times> (u32 \<times> u32 \<times> u32)" where
  "local_index_and_id info iv =
    (let subgroup_id = load_subgroup_id iv;
         thread_local_id = nir_imul subgroup_id (load_simd_width_intel iv);
         channel = load_subgroup_invocation iv;
         linear = nir_iadd channel thread_local_id;
         size_x = (if local_size_variable info
                   then nir_channel (load_local_group_size iv) 0
                   else nir_channel (local_size info) 0);
         size_y = (if local_size_variable info
                   then nir_channel (load_local_group_size iv) 1
                   else nir_channel (local_size info) 1)
     in if derivative_group info \<noteq> DERIVATIVE_GROUP_QUADS then
          (let local_index = linear;
               id_x = nir_umod local_index size_x;
               id_y = nir_umod (nir_udiv local_index size_x) size_y;
               id_z = nir_udiv local_index (nir_imul size_x size_y)
           in (local_index, (id_x, id_y, id_z)))
        else
          (let one = nir_imm_int 1;
               double_size_x = nir_ishl size_x one;
               row_pair_id = nir_umod linear double_size_x;
               y_row_pairs = nir_udiv linear double_size_x;
               x = nir_ior (nir_iand row_pair_id one)
                           (nir_iand (nir_ishr row_pair_id one) (nir_imm_int 0xfffffffe));
               y = nir_ior (nir_ishl y_row_pairs one)
                           (nir_iand (nir_ishr row_pair_id one) one)
           in (nir_iadd x (nir_imul y size_x),
               (x, nir_umod y size_y, nir_udiv y size_y))))"

definition local_invocation_index :: "cs_info \<Rightarrow> invocation \<Rightarrow> u32" where
  "local_invocation_index info iv = fst (local_index_and_id info iv)"

definition local_invocation_id :: "cs_info \<Rightarrow> invocation \<Rightarrow> u32 \<times> u32 \<times> u32" where
  "local_invocation_id info iv = snd (local_index_and_id info iv)"

subsection \<open>num_subgroups\<close>

text \<open>The \<^verbatim>\<open>nir_intrinsic_load_num_subgroups\<close> case.\<close>

definition num_subgroups :: "cs_info \<Rightarrow> invocation \<Rightarrow> u32" where
  "num_subgroups info iv =
    (let size = (if local_size_variable info then
                   (let size_xyz = load_local_group_size iv;
                        size_x = nir_channel size_xyz 0;
                        size_y = nir_channel size_xyz 1;
                        size_z = nir_channel size_xyz 2
                    in nir_imul (nir_imul size_x size_y) size_z)
                 else
                   nir_channel (local_size info) 0 *
                   nir_channel (local_size info) 1 *
                   nir_channel (local_size info) 2);
         simd_width = load_simd_width_intel iv
     in nir_udiv (nir_iadd_imm (nir_iadd size simd_width) (- 1)) simd_width)"

text \<open>
  The value \<^verbatim>\<open>linear\<close> of the block above, and the two values \<^verbatim>\<open>x\<close> and
  \<^verbatim>\<open>y\<close> of its quad branch as functions of \<^verbatim>\<open>row_pair_id\<close> and
  \<^verbatim>\<open>y_row_pairs\<close>; they name the subterms of \<open>local_index_and_id\<close> in
  the statements below.
\<close>

definition linear_position :: "invocation \<Rightarrow> u32" where
  "linear_position iv =
     nir_iadd (load_subgroup_invocation iv)
              (nir_imul (load_subgroup_id iv) (load_simd_width_intel iv))"

definition quad_x :: "u32 \<Rightarrow> u32" where
  "quad_x row_pair_id =
     nir_ior (nir_iand row_pair_id (nir_imm_int 1))
             (nir_iand (nir_ishr row_pair_id (nir_imm_int 1)) (nir_imm_int 0xfffffffe))"

definition quad_y :: "u32 \<Rightarrow> u32 \<Rightarrow> u32" where
  "quad_y y_row_pairs row_pair_id =
     nir_ior (nir_ishl y_row_pairs (nir_imm_int 1))
             (nir_iand (nir_ishr row_pair_id (nir_imm_int 1)) (nir_imm_int 1))"

subsection \<open>The pass over the program\<close>

datatype gl_shader_stage =
    MESA_SHADER_VERTEX | MESA_SHADER_TESS_CTRL | MESA_SHADER_TESS_EVAL
  | MESA_SHADER_GEOMETRY | MESA_SHADER_FRAGMENT | MESA_SHADER_COMPUTE
  | MESA_SHADER_RAYGEN | MESA_SHADER_ANY_HIT | MESA_SHADER_CLOSEST_HIT
  | MESA_SHADER_MISS | MESA_SHADER_INTERSECTION | MESA_SHADER_CALLABLE
  | MESA_SHADER_KERNEL

datatype nir_intrinsic_op =
    nir_intrinsic_load_local_group_size
  | nir_intrinsic_load_work_group_id
  | nir_intrinsic_load_num_work_groups
  | nir_intrinsic_load_local_invocation_index
  | nir_intrinsic_load_local_invocation_id
  | nir_intrinsic_load_num_subgroups
  | nir_intrinsic_other

text \<open>
  What the builder inserts at the cursor: the instructions computing
  \<open>local_index_and_id\<close> (once per block), those computing \<open>num_subgroups\<close>, and a
  \<^verbatim>\<open>u2u64\<close> conversion.
\<close>

datatype emitted_code = Code_local_index_and_id | Code_num_subgroups | Code_u2u64

text \<open>
  An instruction of a block: an intrinsic with the bit size of its destination, code
  inserted by the pass, or any instruction whose type is not
  \<^verbatim>\<open>nir_instr_type_intrinsic\<close>.
\<close>

datatype nir_instr =
    Intrinsic nir_intrinsic_op nat
  | Emitted emitted_code
  | Other_instr

type_synonym nir_block = "nir_instr list"

text \<open>A function of the shader: \<open>None\<close> when it has no \<^verbatim>\<open>impl\<close>.\<close>

type_synonym nir_function = "nir_block list option"

record nir_shader =
  info_stage :: gl_shader_stage
  info_cs :: cs_info
  shader_functions :: "nir_function list"

text \<open>
  The loop of \<^verbatim>\<open>lower_cs_intrinsics_convert_block\<close>. The first argument is
  \<^verbatim>\<open>state->progress\<close>, the second says whether \<^verbatim>\<open>local_index\<close> has been
  computed in this block. The result is the new \<^verbatim>\<open>state->progress\<close> and the
  rewritten instructions. An intrinsic that is replaced has its uses rewritten to the
  emitted value and is removed; a narrowed one stays, with a 32-bit destination, followed
  by the conversion its later uses are rewritten to.
\<close>

fun convert_instrs :: "bool \<Rightarrow> bool \<Rightarrow> nir_instr list \<Rightarrow> bool \<times> nir_instr list" where
  "convert_instrs progress have_local [] = (progress, [])"
| "convert_instrs progress have_local (Intrinsic intrinsic bit_size # rest) =
    (if intrinsic = nir_intrinsic_load_local_group_size \<or>
        intrinsic = nir_intrinsic_load_work_group_id \<or>
        intrinsic = nir_intrinsic_load_num_work_groups then
       (if bit_size = 64 then
          (case convert_instrs progress have_local rest of
             (p, out) \<Rightarrow> (p, Intrinsic intrinsic 32 # Emitted Code_u2u64 # out))
        else
          (case convert_instrs progress have_local rest of
             (p, out) \<Rightarrow> (p, Intrinsic intrinsic bit_size # out)))
     else if intrinsic = nir_intrinsic_load_local_invocation_index \<or>
             intrinsic = nir_intrinsic_load_local_invocation_id then
       (case convert_instrs True True rest of
          (p, out) \<Rightarrow>
            (p, (if have_local then [] else [Emitted Code_local_index_and_id]) @
                (if bit_size = 64 then [Emitted Code_u2u64] else []) @ out))
     else if intrinsic = nir_intrinsic_load_num_subgroups then
       (case convert_instrs True have_local rest of
          (p, out) \<Rightarrow>
            (p, Emitted Code_num_subgroups #
                (if bit_size = 64 then [Emitted Code_u2u64] else []) @ out))
     else
       (case convert_instrs progress have_local rest of
          (p, out) \<Rightarrow> (p, Intrinsic intrinsic bit_size # out)))"
| "convert_instrs progress have_local (instr # rest) =
    (case convert_instrs progress have_local rest of (p, out) \<Rightarrow> (p, instr # out))"

text \<open>
  \<^verbatim>\<open>lower_cs_intrinsics_convert_block\<close> returns its local \<^verbatim>\<open>progress\<close>, which
  is never assigned after its initialisation to \<^verbatim>\<open>false\<close>; the caller ignores
  it. The state's flag and the new block are returned alongside.
\<close>

definition lower_cs_intrinsics_convert_block ::
    "bool \<Rightarrow> nir_block \<Rightarrow> bool \<times> (bool \<times> nir_block)" where
  "lower_cs_intrinsics_convert_block state_progress block =
     (False, convert_instrs state_progress False block)"

fun lower_cs_intrinsics_convert_impl :: "bool \<Rightarrow> nir_block list \<Rightarrow> bool \<times> nir_block list" where
  "lower_cs_intrinsics_convert_impl state_progress [] = (state_progress, [])"
| "lower_cs_intrinsics_convert_impl state_progress (block # blocks) =
    (case snd (lower_cs_intrinsics_convert_block state_progress block) of
       (p, block') \<Rightarrow>
         (case lower_cs_intrinsics_convert_impl p blocks of
            (p', blocks') \<Rightarrow> (p', block' # blocks')))"

fun convert_functions :: "bool \<Rightarrow> nir_function list \<Rightarrow> bool \<times> nir_function list" where
  "convert_functions state_progress [] = (state_progress, [])"
| "convert_functions state_progress (None # fs) =
    (case convert_functions state_progress fs of (p, fs') \<Rightarrow> (p, None # fs'))"
| "convert_functions state_progress (Some impl # fs) =
    (case lower_cs_intrinsics_convert_impl state_progress impl of
       (p, impl') \<Rightarrow>
         (case convert_functions p fs of (p', fs') \<Rightarrow> (p', Some impl' # fs')))"

text \<open>
  \<^verbatim>\<open>brw_nir_lower_cs_intrinsics\<close>: \<open>None\<close> is a failed assertion, otherwise the
  rewritten shader and the returned \<^verbatim>\<open>state.progress\<close>.
\<close>

definition brw_nir_lower_cs_intrinsics :: "nir_shader \<Rightarrow> (nir_shader \<times> bool) option" where
  "brw_nir_lower_cs_intrinsics nir =
    (if \<not> (info_stage nir = MESA_SHADER_COMPUTE \<or> info_stage nir = MESA_SHADER_KERNEL) then None
     else if \<not> local_size_variable (info_cs nir) \<and>
             derivative_group (info_cs nir) = DERIVATIVE_GROUP_QUADS \<and>
             \<not> (unat (nir_channel (local_size (info_cs nir)) 0) mod 2 = 0 \<and>
                unat (nir_channel (local_size (info_cs nir)) 1) mod 2 = 0) then None
     else if \<not> local_size_variable (info_cs nir) \<and>
             derivative_group (info_cs nir) = DERIVATIVE_GROUP_LINEAR \<and>
             \<not> (unat (nir_channel (local_size (info_cs nir)) 0 *
                      nir_channel (local_size (info_cs nir)) 1 *
                      nir_channel (local_size (info_cs nir)) 2) mod 4 = 0) then None
     else
       (case convert_functions False (shader_functions nir) of
          (p, fs') \<Rightarrow> Some (nir\<lparr>shader_functions := fs'\<rparr>, p)))"

section \<open>Ray-tracing system-value lowering (brw_nir_lower_rt_intrinsics.c)\<close>

subsection \<open>The procedural-leaf test\<close>

text \<open>
  The constants of the ray-tracing headers that the pass names. Their values are declared
  outside the two source files, so they are a parameter of the model.
\<close>

record brw_rt_constants =
  BRW_RT_BVH_NODE_TYPE_PROCEDURAL :: int
  BRW_RT_HIT_KIND_FRONT_FACE :: int
  BRW_RT_HIT_KIND_BACK_FACE :: int

text \<open>The fields of \<^verbatim>\<open>struct brw_nir_rt_mem_hit_defs\<close> read below, as run-time values.\<close>

record brw_nir_rt_mem_hit_defs =
  leaf_type :: u32
  front_face :: bool
  aabb_hit_kind :: u32
  prim_leaf_index :: u32

definition nir_ieq :: "u32 \<Rightarrow> u32 \<Rightarrow> bool" where
  "nir_ieq a b = (a = b)"

definition nir_bcsel :: "bool \<Rightarrow> 'a \<Rightarrow> 'a \<Rightarrow> 'a" where
  "nir_bcsel c a b = (if c then a else b)"

definition build_leaf_is_procedural ::
    "brw_rt_constants \<Rightarrow> gl_shader_stage \<Rightarrow> brw_nir_rt_mem_hit_defs \<Rightarrow> bool" where
  "build_leaf_is_procedural k shader_stage hit =
    (case shader_stage of
       MESA_SHADER_ANY_HIT \<Rightarrow> False
     | MESA_SHADER_INTERSECTION \<Rightarrow> True
     | _ \<Rightarrow> nir_ieq (leaf_type hit) (nir_imm_int (BRW_RT_BVH_NODE_TYPE_PROCEDURAL k)))"

text \<open>
  The three intrinsics whose replacement calls \<^verbatim>\<open>build_leaf_is_procedural\<close>:
  the byte offset of the load for \<^verbatim>\<open>load_primitive_id\<close>, the value of
  \<^verbatim>\<open>load_ray_hit_kind\<close> and the value of \<^verbatim>\<open>load_leaf_procedural_intel\<close>.
\<close>

definition primitive_id_offset ::
    "brw_rt_constants \<Rightarrow> gl_shader_stage \<Rightarrow> brw_nir_rt_mem_hit_defs \<Rightarrow> u32" where
  "primitive_id_offset k shader_stage hit =
     nir_bcsel (build_leaf_is_procedural k shader_stage hit)
               (nir_iadd_imm (prim_leaf_index hit) 12)
               (nir_imm_int 8)"

definition ray_hit_kind ::
    "brw_rt_constants \<Rightarrow> gl_shader_stage \<Rightarrow> brw_nir_rt_mem_hit_defs \<Rightarrow> u32" where
  "ray_hit_kind k shader_stage hit =
    (let tri_hit_kind = nir_bcsel (front_face hit)
                                  (nir_imm_int (BRW_RT_HIT_KIND_FRONT_FACE k))
                                  (nir_imm_int (BRW_RT_HIT_KIND_BACK_FACE k))
     in nir_bcsel (build_leaf_is_procedural k shader_stage hit)
                  (aabb_hit_kind hit) tri_hit_kind)"

definition leaf_procedural_intel ::
    "brw_rt_constants \<Rightarrow> gl_shader_stage \<Rightarrow> brw_nir_rt_mem_hit_defs \<Rightarrow> bool" where
  "leaf_procedural_intel k shader_stage hit = build_leaf_is_procedural k shader_stage hit"

subsection \<open>Stack-offset bookkeeping in the hotzone\<close>

text \<open>
  \<^verbatim>\<open>stack_base_offset\<close> is an SSA value: channel 0 of the hotzone as loaded at
  function entry, with immediates added by \<^verbatim>\<open>nir_iadd_imm\<close>.
\<close>

datatype stack_offset = Hotzone_channel0 | Iadd_imm stack_offset int

fun eval_offset :: "u32 \<Rightarrow> stack_offset \<Rightarrow> u32" where
  "eval_offset h Hotzone_channel0 = h"
| "eval_offset h (Iadd_imm e c) = nir_iadd_imm (eval_offset h e) c"

text \<open>
  The intrinsics the pass switches on. \<open>nir_intrinsic_load_ray_sysval\<close> stands for each
  of the remaining handled \<^verbatim>\<open>load_*\<close> cases, which all set \<^verbatim>\<open>sysval\<close> and
  touch no pass state; \<open>nir_intrinsic_unhandled\<close> is the \<^verbatim>\<open>default\<close> case. The
  argument of the scratch-pointer load is \<^verbatim>\<open>nir_intrinsic_base\<close>, that of the two
  markers is \<^verbatim>\<open>nir_intrinsic_range\<close>, read into an \<^verbatim>\<open>int32_t\<close>.
\<close>

datatype rt_intrinsic =
    nir_intrinsic_load_scratch_base_ptr int
  | nir_intrinsic_btd_stack_push_intel "32 word"
  | nir_intrinsic_btd_resume_intel "32 word"
  | nir_intrinsic_load_uniform
  | nir_intrinsic_load_shader_record_ptr
  | nir_intrinsic_load_ray_sysval
  | nir_intrinsic_unhandled

datatype rt_instr = Rt_intrinsic rt_intrinsic | Rt_other_instr

text \<open>
  What stands in the lowered program in place of an instruction: the instruction itself
  when it is kept, a store of an offset to channel 0 of the hotzone
  (\<^verbatim>\<open>nir_store_global\<close> with write mask \<^verbatim>\<open>0x1\<close>), or the rewriting of the uses of
  a removed intrinsic to a value.
\<close>

datatype rt_sysval = Stack_base_addr stack_offset | Loaded_value

datatype rt_lowered = Kept rt_instr | Store_hotzone stack_offset | Rewritten rt_sysval

record rt_pass_state =
  stack_base_offset :: stack_offset
  stack_base_addr :: stack_offset
  seen_scratch_base_ptr_load :: bool
  found_resume :: bool

text \<open>
  One iteration of the instruction loop of \<^verbatim>\<open>lower_rt_intrinsics_impl\<close>.
  \<open>None\<close> is a failed assertion. \<open>in_start_block\<close> is
  \<^verbatim>\<open>block == nir_start_block(impl)\<close>. \<open>stack_base_addr\<close> records the offset the
  address value was last built from.
\<close>

fun lower_rt_instr ::
    "gl_shader_stage \<Rightarrow> bool \<Rightarrow> rt_pass_state \<Rightarrow> rt_instr \<Rightarrow> (rt_pass_state \<times> rt_lowered list) option" where
  "lower_rt_instr shader_stage in_start_block st Rt_other_instr = Some (st, [Kept Rt_other_instr])"
| "lower_rt_instr shader_stage in_start_block st (Rt_intrinsic (nir_intrinsic_load_scratch_base_ptr base)) =
    (if base \<noteq> 1 then None
     else Some (st\<lparr>seen_scratch_base_ptr_load := True\<rparr>,
                [Rewritten (Stack_base_addr (stack_base_addr st))]))"
| "lower_rt_instr shader_stage in_start_block st (Rt_intrinsic (nir_intrinsic_btd_stack_push_intel rng)) =
    (let stack_size = sint rng
     in if stack_size > 0 then
          (let child_stack_offset = Iadd_imm (stack_base_offset st) stack_size
           in Some (st, [Store_hotzone child_stack_offset]))
        else Some (st, []))"
| "lower_rt_instr shader_stage in_start_block st (Rt_intrinsic (nir_intrinsic_btd_resume_intel rng)) =
    (if \<not> in_start_block then None
     else if seen_scratch_base_ptr_load st then None
     else
       (let st1 = st\<lparr>found_resume := True\<rparr>;
            stack_size = sint rng
        in if stack_size > 0 then
             (let off = Iadd_imm (stack_base_offset st1) (- stack_size)
              in Some (st1\<lparr>stack_base_offset := off, stack_base_addr := off\<rparr>,
                       [Store_hotzone off]))
           else Some (st1, [])))"
| "lower_rt_instr shader_stage in_start_block st (Rt_intrinsic nir_intrinsic_load_uniform) =
    (if shader_stage = MESA_SHADER_COMPUTE
     then Some (st, [Kept (Rt_intrinsic nir_intrinsic_load_uniform)])
     else Some (st, [Rewritten Loaded_value]))"
| "lower_rt_instr shader_stage in_start_block st (Rt_intrinsic nir_intrinsic_load_shader_record_ptr) =
    (if found_resume st then None else Some (st, [Rewritten Loaded_value]))"
| "lower_rt_instr shader_stage in_start_block st (Rt_intrinsic nir_intrinsic_load_ray_sysval) =
    Some (st, [Rewritten Loaded_value])"
| "lower_rt_instr shader_stage in_start_block st (Rt_intrinsic nir_intrinsic_unhandled) =
    Some (st, [Kept (Rt_intrinsic nir_intrinsic_unhandled)])"

fun lower_rt_instrs ::
    "gl_shader_stage \<Rightarrow> bool \<Rightarrow> rt_pass_state \<Rightarrow> rt_instr list \<Rightarrow> (rt_pass_state \<times> rt_lowered list) option" where
  "lower_rt_instrs shader_stage in_start_block st [] = Some (st, [])"
| "lower_rt_instrs shader_stage in_start_block st (instr # rest) =
    (case lower_rt_instr shader_stage in_start_block st instr of
       None \<Rightarrow> None
     | Some (st1, out) \<Rightarrow>
         (case lower_rt_instrs shader_stage in_start_block st1 rest of
            None \<Rightarrow> None
          | Some (st2, out') \<Rightarrow> Some (st2, out @ out')))"




text \<open>
  Running a lowered function on the hotzone cursor: \<open>entry\<close> is the value loaded from
  the hotzone at function entry, the last argument the current content of channel 0. Only
  the stores emitted by the pass write the hotzone; the blocks run once, in program order.
\<close>

fun exec_hotzone :: "u32 \<Rightarrow> rt_lowered list \<Rightarrow> u32 \<Rightarrow> u32" where
  "exec_hotzone entry [] h = h"
| "exec_hotzone entry (Store_hotzone e # rest) h = exec_hotzone entry rest (eval_offset entry e)"
| "exec_hotzone entry (i # rest) h = exec_hotzone entry rest h"





section \<open>Draw-command packer (the lima draw code)\<close>

subsection \<open>Scissor clipping\<close>

text \<open>
  \<^verbatim>\<open>struct pipe_scissor_state\<close> and the viewport edges of the context. The four
  scissor fields are unsigned 16-bit bit-fields, and the framebuffer width and height are
  unsigned 16-bit as well: a value assigned to a field is reduced modulo \<open>2 ^ 16\<close>, and
  a field read in an expression is promoted to \<^verbatim>\<open>int\<close>. The viewport edges are
  floating-point in the code (they are passed to \<^verbatim>\<open>fui\<close>) and are assigned to
  \<^verbatim>\<open>int\<close> locals after \<^verbatim>\<open>MAX2\<close>/\<^verbatim>\<open>MIN2\<close> against an integer; the model holds
  the integer each edge converts to, which commutes with that maximum and minimum.
\<close>

record pipe_scissor_state =
  minx :: "16 word"
  maxx :: "16 word"
  miny :: "16 word"
  maxy :: "16 word"

record lima_context_viewport =
  viewport_left :: int
  viewport_right :: int
  viewport_bottom :: int
  viewport_top :: int

subsection \<open>Jobs and the context\<close>

text \<open>
  The \<^verbatim>\<open>PIPE_CLEAR_*\<close> bits; a mask of them is a set, \<^verbatim>\<open>&\<close> is membership and
  \<^verbatim>\<open>|=\<close> is union.
\<close>

datatype clear_buffer = PIPE_CLEAR_DEPTH | PIPE_CLEAR_STENCIL | PIPE_CLEAR_COLOR0

datatype lima_pipe = LIMA_PIPE_GP | LIMA_PIPE_PP

datatype lima_submit_bo = LIMA_SUBMIT_BO_READ | LIMA_SUBMIT_BO_WRITE

datatype lima_bo = Bo_cbuf | Bo_zsbuf | Bo_vs | Bo_fs | Bo_index

datatype plbu_cmd =
    PLBU_CMD_SCISSORS "16 word" "16 word" "16 word" "16 word"
  | PLBU_CMD_DRAW_ARRAYS nat nat
  | PLBU_CMD_DRAW_ELEMENTS u32 nat

datatype vs_cmd = VS_CMD_DRAW nat

datatype lima_dirty = LIMA_CONTEXT_DIRTY_CLEAR | LIMA_CONTEXT_DIRTY_OTHER nat

text \<open>
  \<open>job_events\<close> is a ghost field: the order in which clear state was applied to the job
  and draws were packed into it. \<open>job_serial\<close> is a ghost identity of the job.
\<close>

datatype job_event = Clear_applied | Draw_packed

record lima_job =
  job_serial :: nat
  plbu_cmd_array :: "plbu_cmd list"
  vs_cmd_array :: "vs_cmd list"
  job_bos :: "(lima_pipe \<times> lima_bo \<times> lima_submit_bo) list"
  resolve :: "clear_buffer set"
  clear_buffers :: "clear_buffer set"
  clear_stencil :: nat
  damage_rect :: pipe_scissor_state
  pp_max_stack_size :: int
  job_events :: "job_event list"

text \<open>
  The context. \<open>rasterizer_scissor\<close> is \<open>None\<close> when \<^verbatim>\<open>ctx->rasterizer\<close> is null and
  otherwise holds \<^verbatim>\<open>base.scissor\<close>. \<open>fs_state_ok\<close> and \<open>vs_state_ok\<close> are the
  results of \<^verbatim>\<open>lima_update_fs_state\<close> and \<^verbatim>\<open>lima_update_vs_state\<close>, which are
  outside the source files. \<open>ctx_min_index\<close> and \<open>ctx_max_index\<close> are
  \<^verbatim>\<open>ctx->min_index\<close> and \<^verbatim>\<open>ctx->max_index\<close>. \<open>submitted_jobs\<close> lists the jobs
  handed to the hardware.
\<close>

record lima_context =
  rasterizer_scissor :: "bool option"
  scissor :: pipe_scissor_state
  clipped_scissor :: pipe_scissor_state
  viewport :: lima_context_viewport
  fb_width :: "16 word"
  fb_height :: "16 word"
  fb_nr_cbufs :: nat
  fb_zsbuf :: bool
  cbuf_reload :: "clear_buffer set"
  zsbuf_reload :: "clear_buffer set"
  zsa_depth_enabled :: bool
  zsa_stencil_enabled :: bool
  bind_fs :: bool
  bind_vs :: bool
  fs_state_ok :: bool
  vs_state_ok :: bool
  fs_stack_size :: int
  ctx_min_index :: u32
  ctx_max_index :: u32
  dirty :: "lima_dirty set"
  current_job :: "lima_job option"
  submitted_jobs :: "lima_job list"
  next_job_serial :: nat

definition lima_clip_scissor_to_viewport :: "lima_context \<Rightarrow> lima_context" where
  "lima_clip_scissor_to_viewport ctx =
    (let cscissor =
           (if rasterizer_scissor ctx = Some True
            then \<lparr>minx = minx (scissor ctx), maxx = maxx (scissor ctx),
                  miny = miny (scissor ctx), maxy = maxy (scissor ctx)\<rparr>
            else \<lparr>minx = 0, maxx = fb_width ctx, miny = 0, maxy = fb_height ctx\<rparr>);
         vleft = max (viewport_left (viewport ctx)) 0;
         c1 = cscissor\<lparr>minx := word_of_int (max (uint (minx cscissor)) vleft)\<rparr>;
         vright = min (viewport_right (viewport ctx)) (uint (fb_width ctx));
         c2 = c1\<lparr>maxx := word_of_int (min (uint (maxx c1)) vright)\<rparr>;
         c3 = c2\<lparr>minx := (if minx c2 > maxx c2 then maxx c2 else minx c2)\<rparr>;
         vbottom = max (viewport_bottom (viewport ctx)) 0;
         c4 = c3\<lparr>miny := word_of_int (max (uint (miny c3)) vbottom)\<rparr>;
         vtop = min (viewport_top (viewport ctx)) (uint (fb_height ctx));
         c5 = c4\<lparr>maxy := word_of_int (min (uint (maxy c4)) vtop)\<rparr>;
         c6 = c5\<lparr>miny := (if miny c5 > maxy c5 then maxy c5 else miny c5)\<rparr>
     in ctx\<lparr>clipped_scissor := c6\<rparr>)"

text \<open>
  The two rectangles the clipped scissor is compared with: the explicit scissor rectangle,
  or the full framebuffer when scissoring is disabled, and the viewport rectangle clamped
  to the framebuffer bounds, the latter in the \<^verbatim>\<open>int\<close> locals of the function.
\<close>

definition scissor_or_framebuffer :: "lima_context \<Rightarrow> pipe_scissor_state" where
  "scissor_or_framebuffer ctx =
     (if rasterizer_scissor ctx = Some True then scissor ctx
      else \<lparr>minx = 0, maxx = fb_width ctx, miny = 0, maxy = fb_height ctx\<rparr>)"

record int_rect =
  rect_minx :: int
  rect_maxx :: int
  rect_miny :: int
  rect_maxy :: int

definition viewport_in_framebuffer :: "lima_context \<Rightarrow> int_rect" where
  "viewport_in_framebuffer ctx =
     \<lparr>rect_minx = max (viewport_left (viewport ctx)) 0,
      rect_maxx = min (viewport_right (viewport ctx)) (uint (fb_width ctx)),
      rect_miny = max (viewport_bottom (viewport ctx)) 0,
      rect_maxy = min (viewport_top (viewport ctx)) (uint (fb_height ctx))\<rparr>"

definition lima_is_scissor_zero :: "lima_context \<Rightarrow> bool" where
  "lima_is_scissor_zero ctx =
     (minx (clipped_scissor ctx) = maxx (clipped_scissor ctx) \<or>
      miny (clipped_scissor ctx) = maxy (clipped_scissor ctx))"

text \<open>
  Modelled from the spec: \<^verbatim>\<open>lima_job_get\<close>, \<^verbatim>\<open>lima_do_job\<close> and
  \<^verbatim>\<open>lima_job_has_draw_pending\<close> are called by the source files but defined outside
  them. Following the job lifecycle of the specification, a job is created or fetched on
  the first call after the previous one was flushed, a flushed job is submitted and is no
  longer current, and a job has a draw pending once a draw has packed commands into it. A
  new job has no command, no buffer, no clear state and an empty damage rectangle.
\<close>

definition lima_job_new :: "nat \<Rightarrow> lima_job" where
  "lima_job_new n =
     \<lparr>job_serial = n, plbu_cmd_array = [], vs_cmd_array = [], job_bos = [],
      resolve = {}, clear_buffers = {}, clear_stencil = 0,
      damage_rect = \<lparr>minx = 0xffff, maxx = 0, miny = 0xffff, maxy = 0\<rparr>,
      pp_max_stack_size = 0, job_events = []\<rparr>"

definition lima_job_get :: "lima_context \<Rightarrow> lima_context \<times> lima_job" where
  "lima_job_get ctx =
    (case current_job ctx of
       Some job \<Rightarrow> (ctx, job)
     | None \<Rightarrow>
         (let job = lima_job_new (next_job_serial ctx)
          in (ctx\<lparr>current_job := Some job, next_job_serial := Suc (next_job_serial ctx)\<rparr>,
              job)))"

definition lima_do_job :: "lima_context \<Rightarrow> lima_job \<Rightarrow> lima_context" where
  "lima_do_job ctx job =
     ctx\<lparr>submitted_jobs := submitted_jobs ctx @ [job], current_job := None\<rparr>"

definition lima_job_has_draw_pending :: "lima_job \<Rightarrow> bool" where
  "lima_job_has_draw_pending job = (plbu_cmd_array job \<noteq> [])"

text \<open>A write through the \<^verbatim>\<open>job\<close> pointer, which points to the current job.\<close>

definition job_update :: "(lima_job \<Rightarrow> lima_job) \<Rightarrow> lima_context \<Rightarrow> lima_context" where
  "job_update f ctx = ctx\<lparr>current_job := map_option f (current_job ctx)\<rparr>"

definition lima_job_add_bo ::
    "lima_pipe \<Rightarrow> lima_bo \<Rightarrow> lima_submit_bo \<Rightarrow> lima_job \<Rightarrow> lima_job" where
  "lima_job_add_bo pipe bo access job = job\<lparr>job_bos := job_bos job @ [(pipe, bo, access)]\<rparr>"

text \<open>
  \<^verbatim>\<open>lima_update_job_wb\<close>. The flush of other jobs that access the buffer and the
  \<^verbatim>\<open>write_jobs\<close> table concern jobs of other framebuffers, which the model does not
  hold.
\<close>

definition lima_update_job_wb :: "lima_context \<Rightarrow> clear_buffer set \<Rightarrow> lima_context" where
  "lima_update_job_wb ctx buffers =
    (case lima_job_get ctx of
       (ctx1, job) \<Rightarrow>
         (let ctx2 = (if fb_nr_cbufs ctx1 \<noteq> 0 \<and> PIPE_CLEAR_COLOR0 \<in> buffers \<and>
                         PIPE_CLEAR_COLOR0 \<notin> resolve job
                      then job_update (lima_job_add_bo LIMA_PIPE_PP Bo_cbuf LIMA_SUBMIT_BO_WRITE) ctx1
                      else ctx1);
              ctx3 = (if fb_zsbuf ctx2 \<and>
                         buffers \<inter> {PIPE_CLEAR_DEPTH, PIPE_CLEAR_STENCIL} \<noteq> {} \<and>
                         resolve job \<inter> {PIPE_CLEAR_DEPTH, PIPE_CLEAR_STENCIL} = {}
                      then job_update (lima_job_add_bo LIMA_PIPE_PP Bo_zsbuf LIMA_SUBMIT_BO_WRITE) ctx2
                      else ctx2)
          in job_update (\<lambda>j. j\<lparr>resolve := resolve j \<union> buffers\<rparr>) ctx3))"

text \<open>
  \<^verbatim>\<open>lima_damage_rect_union\<close>: the four bounds are \<^verbatim>\<open>unsigned\<close> parameters, the
  minimum and maximum are taken in 32-bit unsigned arithmetic and stored to the 16-bit
  fields.
\<close>

definition lima_damage_rect_union ::
    "pipe_scissor_state \<Rightarrow> u32 \<Rightarrow> u32 \<Rightarrow> u32 \<Rightarrow> u32 \<Rightarrow> pipe_scissor_state" where
  "lima_damage_rect_union rect x0 x1 y0 y1 =
     \<lparr>minx = ucast (min (ucast (minx rect)) x0), maxx = ucast (max (ucast (maxx rect)) x1),
      miny = ucast (min (ucast (miny rect)) y0), maxy = ucast (max (ucast (maxy rect)) y1)\<rparr>"

text \<open>
  \<^verbatim>\<open>lima_clear\<close>. The packed clear colour and depth are conversions of floating-point
  arguments and are left out; everything else follows the code.
\<close>

definition lima_clear :: "lima_context \<Rightarrow> clear_buffer set \<Rightarrow> nat \<Rightarrow> lima_context" where
  "lima_clear ctx buffers stencil =
    (case lima_job_get ctx of
       (ctx0, job) \<Rightarrow>
         (let ctx1 = (if lima_job_has_draw_pending job
                      then fst (lima_job_get (lima_do_job ctx0 job))
                      else ctx0);
              ctx2 = lima_update_job_wb ctx1 buffers;
              ctx3 = (if fb_nr_cbufs ctx2 \<noteq> 0 \<and> PIPE_CLEAR_COLOR0 \<in> buffers
                      then ctx2\<lparr>cbuf_reload := cbuf_reload ctx2 - {PIPE_CLEAR_COLOR0}\<rparr>
                      else ctx2);
              ctx4 = job_update (\<lambda>j. j\<lparr>clear_buffers := buffers,
                                          job_events := job_events j @ [Clear_applied]\<rparr>) ctx3;
              ctx5 = (if PIPE_CLEAR_DEPTH \<in> buffers \<and> fb_zsbuf ctx4
                      then ctx4\<lparr>zsbuf_reload := zsbuf_reload ctx4 - {PIPE_CLEAR_DEPTH}\<rparr>
                      else ctx4);
              ctx6 = (if PIPE_CLEAR_STENCIL \<in> buffers
                      then (let c = job_update (\<lambda>j. j\<lparr>clear_stencil := stencil\<rparr>) ctx5
                            in if fb_zsbuf c
                               then c\<lparr>zsbuf_reload := zsbuf_reload c - {PIPE_CLEAR_STENCIL}\<rparr>
                               else c)
                      else ctx5);
              ctx7 = ctx6\<lparr>dirty := dirty ctx6 \<union> {LIMA_CONTEXT_DIRTY_CLEAR}\<rparr>
          in job_update (\<lambda>j. j\<lparr>damage_rect :=
                                   lima_damage_rect_union (damage_rect j)
                                     0 (ucast (fb_width ctx7)) 0 (ucast (fb_height ctx7))\<rparr>)
               ctx7))"

subsection \<open>Draws\<close>

text \<open>
  \<open>prim_ok\<close> is the result of \<^verbatim>\<open>u_trim_pipe_prim\<close> on the draw's mode and count,
  a utility outside the source files. \<open>cached_index_range\<close> is the answer of
  \<^verbatim>\<open>panfrost_minmax_cache_get\<close> for the draw (\<open>None\<close> on a miss) and
  \<open>scanned_index_range\<close> the range \<^verbatim>\<open>u_vbuf_get_minmax_index\<close> finds; both are
  computed outside the source files.
\<close>

record pipe_draw_info =
  index_size :: nat
  prim_mode :: nat
  index_bounds_valid :: bool
  info_min_index :: u32
  info_max_index :: u32
  has_user_indices :: bool
  cached_index_range :: "(u32 \<times> u32) option"
  scanned_index_range :: "u32 \<times> u32"

record pipe_draw_start_count =
  draw_start :: nat
  draw_count :: nat
  prim_ok :: bool

text \<open>
  \<^verbatim>\<open>lima_pack_vs_cmd\<close> and \<^verbatim>\<open>lima_pack_plbu_cmd\<close>, reduced to the commands that
  carry the draw and the scissor; the latter also extends the job's damage rectangle. The
  descriptor tables and uniform buffers written in between belong to the context's own
  buffers and are left out. \<^verbatim>\<open>lima_pack_plbu_cmd\<close> asserts that the clipped scissor
  has its minimum below its maximum on both axes; it is only reached from
  \<^verbatim>\<open>lima_draw_vbo\<close> after the clip and the test for a degenerate rectangle, where
  the assertion holds (lemma \<open>clip_not_zero_is_ordered\<close>), so the model has no branch
  for it.
\<close>

definition lima_pack_vs_cmd ::
    "lima_context \<Rightarrow> pipe_draw_info \<Rightarrow> pipe_draw_start_count \<Rightarrow> lima_context" where
  "lima_pack_vs_cmd ctx info draw =
    (case lima_job_get ctx of
       (ctx1, job) \<Rightarrow>
         (let num = (if index_size info \<noteq> 0
                     then unat (ctx_max_index ctx1 - ctx_min_index ctx1 + 1)
                     else draw_count draw)
          in job_update (\<lambda>j. j\<lparr>vs_cmd_array := vs_cmd_array j @ [VS_CMD_DRAW num]\<rparr>) ctx1))"

definition lima_pack_plbu_cmd ::
    "lima_context \<Rightarrow> pipe_draw_info \<Rightarrow> pipe_draw_start_count \<Rightarrow> lima_context" where
  "lima_pack_plbu_cmd ctx info draw =
    (case lima_job_get ctx of
       (ctx1, job) \<Rightarrow>
         (let cscissor = clipped_scissor ctx1
          in job_update
               (\<lambda>j. j\<lparr>plbu_cmd_array := plbu_cmd_array j @
                          [PLBU_CMD_SCISSORS (minx cscissor) (maxx cscissor)
                                             (miny cscissor) (maxy cscissor),
                           (if index_size info \<noteq> 0
                            then PLBU_CMD_DRAW_ELEMENTS (ctx_min_index ctx1) (draw_count draw)
                            else PLBU_CMD_DRAW_ARRAYS (draw_start draw) (draw_count draw))],
                        damage_rect := lima_damage_rect_union (damage_rect j)
                                         (ucast (minx cscissor)) (ucast (maxx cscissor))
                                         (ucast (miny cscissor)) (ucast (maxy cscissor)),
                        job_events := job_events j @ [Draw_packed]\<rparr>) ctx1))"

definition lima_draw_vbo_update ::
    "lima_context \<Rightarrow> pipe_draw_info \<Rightarrow> pipe_draw_start_count \<Rightarrow> lima_context" where
  "lima_draw_vbo_update ctx info draw =
    (let buffers =
           (if fb_zsbuf ctx
            then (if zsa_depth_enabled ctx then {PIPE_CLEAR_DEPTH} else {}) \<union>
                 (if zsa_stencil_enabled ctx then {PIPE_CLEAR_STENCIL} else {})
            else {}) \<union>
           (if fb_nr_cbufs ctx \<noteq> 0 then {PIPE_CLEAR_COLOR0} else {});
         ctx1 = lima_update_job_wb ctx buffers;
         ctx2 = lima_pack_vs_cmd ctx1 info draw;
         ctx3 = lima_pack_plbu_cmd ctx2 info draw
     in ctx3\<lparr>dirty := {}\<rparr>)"

definition lima_draw_vbo_indexed ::
    "lima_context \<Rightarrow> pipe_draw_info \<Rightarrow> pipe_draw_start_count \<Rightarrow> lima_context" where
  "lima_draw_vbo_indexed ctx info draw =
    (case lima_job_get ctx of
       (ctx1, job) \<Rightarrow>
         (let ca = (if index_bounds_valid info
                    then ctx1\<lparr>ctx_min_index := info_min_index info,
                              ctx_max_index := info_max_index info\<rparr>
                    else ctx1);
              needs_a = \<not> index_bounds_valid info;
              cb = (if has_user_indices info then ca
                    else (case cached_index_range info of
                            Some (lo, hi) \<Rightarrow> ca\<lparr>ctx_min_index := lo, ctx_max_index := hi\<rparr>
                          | None \<Rightarrow> ca));
              needs_indices = (if has_user_indices info then needs_a
                               else cached_index_range info = None);
              cc = (if needs_indices
                    then cb\<lparr>ctx_min_index := fst (scanned_index_range info),
                            ctx_max_index := snd (scanned_index_range info)\<rparr>
                    else cb);
              ctx2 = job_update (lima_job_add_bo LIMA_PIPE_GP Bo_index LIMA_SUBMIT_BO_READ) cc;
              ctx3 = job_update (lima_job_add_bo LIMA_PIPE_PP Bo_index LIMA_SUBMIT_BO_READ) ctx2
          in lima_draw_vbo_update ctx3 info draw))"

text \<open>
  Modelled from the spec: \<^verbatim>\<open>u_split_draw\<close> is outside the source files. A draw whose
  count exceeds the hardware limit of 65535 vertices is split into sub-draws within the
  limit with contiguous start offsets; the topology-dependent adjustment of the step is
  delegated to that splitter and is not modelled.
\<close>

definition u_split_draw :: "nat \<Rightarrow> nat \<Rightarrow> nat \<times> nat" where
  "u_split_draw max_verts n = (min n max_verts, min n max_verts)"

function lima_draw_vbo_count_loop ::
    "lima_context \<Rightarrow> pipe_draw_info \<Rightarrow> pipe_draw_start_count \<Rightarrow> nat \<Rightarrow> nat \<Rightarrow> lima_context" where
  "lima_draw_vbo_count_loop ctx info local_draw start n =
    (if n = 0 then ctx
     else (case u_split_draw 65535 n of
             (this_count, step) \<Rightarrow>
               lima_draw_vbo_count_loop
                 (lima_draw_vbo_update ctx info
                    (local_draw\<lparr>draw_start := start, draw_count := this_count\<rparr>))
                 info local_draw (start + step) (n - step)))"
  by pat_completeness auto
termination
  by (relation "measure (\<lambda>(ctx, info, local_draw, start, n). n)")
     (auto simp: u_split_draw_def)

definition lima_draw_vbo_count ::
    "lima_context \<Rightarrow> pipe_draw_info \<Rightarrow> pipe_draw_start_count \<Rightarrow> lima_context" where
  "lima_draw_vbo_count ctx info draw =
     lima_draw_vbo_count_loop ctx info draw (draw_start draw) (draw_count draw)"

text \<open>\<^verbatim>\<open>lima_draw_vbo\<close> for a single draw (\<^verbatim>\<open>num_draws <= 1\<close>).\<close>

definition lima_draw_vbo_single ::
    "lima_context \<Rightarrow> pipe_draw_info \<Rightarrow> pipe_draw_start_count \<Rightarrow> lima_context" where
  "lima_draw_vbo_single ctx info draw =
    (if \<not> prim_ok draw then ctx
     else if \<not> bind_fs ctx \<or> \<not> bind_vs ctx then ctx
     else
       (let ctx1 = lima_clip_scissor_to_viewport ctx
        in if lima_is_scissor_zero ctx1 then ctx1
           else if \<not> fs_state_ok ctx1 \<or> \<not> vs_state_ok ctx1 then ctx1
           else
             (case lima_job_get ctx1 of
                (ctx2, job) \<Rightarrow>
                  (let ctx3 = job_update
                                (\<lambda>j. j\<lparr>pp_max_stack_size :=
                                          max (pp_max_stack_size j) (fs_stack_size ctx2)\<rparr>) ctx2;
                       ctx4 = job_update (lima_job_add_bo LIMA_PIPE_GP Bo_vs LIMA_SUBMIT_BO_READ) ctx3;
                       ctx5 = job_update (lima_job_add_bo LIMA_PIPE_PP Bo_fs LIMA_SUBMIT_BO_READ) ctx4
                   in if index_size info \<noteq> 0
                      then lima_draw_vbo_indexed ctx5 info draw
                      else lima_draw_vbo_count ctx5 info draw))))"

text \<open>
  \<^verbatim>\<open>lima_draw_vbo\<close>: with more than one draw it calls itself on each draw in turn.
  With no draw at all the code reads \<^verbatim>\<open>draws[0]\<close> out of range: \<open>None\<close>.
\<close>

fun lima_draw_vbo_each ::
    "lima_context \<Rightarrow> pipe_draw_info \<Rightarrow> pipe_draw_start_count list \<Rightarrow> lima_context" where
  "lima_draw_vbo_each ctx info [] = ctx"
| "lima_draw_vbo_each ctx info (draw # draws) =
     lima_draw_vbo_each (lima_draw_vbo_single ctx info draw) info draws"

definition lima_draw_vbo ::
    "lima_context \<Rightarrow> pipe_draw_info \<Rightarrow> pipe_draw_start_count list \<Rightarrow> lima_context option" where
  "lima_draw_vbo ctx info draws =
    (if length draws > 1 then Some (lima_draw_vbo_each ctx info draws)
     else (case draws of
             [] \<Rightarrow> None
           | draw # rest \<Rightarrow> Some (lima_draw_vbo_single ctx info draw)))"

subsection \<open>The depth-range word of the render state\<close>

text \<open>
  The \<^verbatim>\<open>depth_range\<close> assignment of \<^verbatim>\<open>lima_pack_render_state\<close>. The arguments are
  the two \<^verbatim>\<open>ushort\<close> results of \<^verbatim>\<open>float_to_ushort\<close> on the viewport's near and far
  planes; the field is a 32-bit word.
\<close>

definition render_depth_near :: "16 word \<Rightarrow> 16 word \<Rightarrow> 16 word" where
  "render_depth_near near0 far = (if far = near0 \<and> near0 \<noteq> 0 then near0 - 1 else near0)"

definition render_depth_range :: "16 word \<Rightarrow> 16 word \<Rightarrow> u32" where
  "render_depth_range near0 far =
    (let near = render_depth_near near0 far
     in ucast near OR push_bit 16 (ucast far))"

subsection \<open>Sequences of calls and an example context\<close>

text \<open>The intrinsics that the compute pass replaces and removes.\<close>

fun is_replaced :: "nir_instr \<Rightarrow> bool" where
  "is_replaced (Intrinsic op bit_size) =
     (op = nir_intrinsic_load_local_invocation_index \<or>
      op = nir_intrinsic_load_local_invocation_id \<or>
      op = nir_intrinsic_load_num_subgroups)"
| "is_replaced i = False"

text \<open>
  The two entry points as calls, and the jobs a context holds: the submitted ones, in
  order of submission, followed by the current one.
\<close>

datatype lima_call =
    Call_clear "clear_buffer set" nat
  | Call_draw pipe_draw_info pipe_draw_start_count

fun run_call :: "lima_context \<Rightarrow> lima_call \<Rightarrow> lima_context" where
  "run_call ctx (Call_clear buffers stencil) = lima_clear ctx buffers stencil"
| "run_call ctx (Call_draw info draw) = lima_draw_vbo_single ctx info draw"

fun run_calls :: "lima_context \<Rightarrow> lima_call list \<Rightarrow> lima_context" where
  "run_calls ctx [] = ctx"
| "run_calls ctx (c # cs) = run_calls (run_call ctx c) cs"

definition all_jobs :: "lima_context \<Rightarrow> lima_job list" where
  "all_jobs ctx = submitted_jobs ctx @ (case current_job ctx of None \<Rightarrow> [] | Some j \<Rightarrow> [j])"

text \<open>No clear state is applied to a job after a draw has been packed into it.\<close>

fun no_clear_after_draw :: "job_event list \<Rightarrow> bool" where
  "no_clear_after_draw [] = True"
| "no_clear_after_draw (Clear_applied # es) = no_clear_after_draw es"
| "no_clear_after_draw (Draw_packed # es) = (Clear_applied \<notin> set es)"

text \<open>
  A context with a 100 by 100 framebuffer with colour and depth/stencil attachments, both
  shaders bound, scissoring enabled, and no job yet.
\<close>

definition example_context :: lima_context where
  "example_context =
     \<lparr>rasterizer_scissor = Some True,
      scissor = \<lparr>minx = 10, maxx = 90, miny = 10, maxy = 60\<rparr>,
      clipped_scissor = \<lparr>minx = 0, maxx = 0, miny = 0, maxy = 0\<rparr>,
      viewport = \<lparr>viewport_left = 0, viewport_right = 100,
                  viewport_bottom = 0, viewport_top = 50\<rparr>,
      fb_width = 100, fb_height = 100, fb_nr_cbufs = 1, fb_zsbuf = True,
      cbuf_reload = {PIPE_CLEAR_COLOR0},
      zsbuf_reload = {PIPE_CLEAR_DEPTH, PIPE_CLEAR_STENCIL},
      zsa_depth_enabled = True, zsa_stencil_enabled = False,
      bind_fs = True, bind_vs = True, fs_state_ok = True, vs_state_ok = True,
      fs_stack_size = 0, ctx_min_index = 0, ctx_max_index = 0, dirty = {},
      current_job = None, submitted_jobs = [], next_job_serial = 0\<rparr>"

text \<open>A non-indexed draw of three vertices as triangles.\<close>

definition example_draw_info :: pipe_draw_info where
  "example_draw_info =
     \<lparr>index_size = 0, prim_mode = 4, index_bounds_valid = False,
      info_min_index = 0, info_max_index = 0, has_user_indices = False,
      cached_index_range = None, scanned_index_range = (0, 0)\<rparr>"

subsection \<open>The view of a context that job splitting is about\<close>

text \<open>
  The part of a job and of a context that job splitting is about: the serial and the
  events of each job and whether it has a draw pending, for the submitted jobs and the
  current one, and the next serial.
\<close>

type_synonym job_view = "nat \<times> job_event list \<times> bool"

type_synonym context_view = "job_view list \<times> job_view option \<times> nat"

definition view_of_job :: "lima_job \<Rightarrow> job_view" where
  "view_of_job j = (job_serial j, job_events j, lima_job_has_draw_pending j)"

definition view_of_context :: "lima_context \<Rightarrow> context_view" where
  "view_of_context ctx =
     (map view_of_job (submitted_jobs ctx), map_option view_of_job (current_job ctx),
      next_job_serial ctx)"

text \<open>
  The effect on a view of \<^verbatim>\<open>lima_job_get\<close>, of \<^verbatim>\<open>lima_clear\<close> and of packing one
  draw, and the appending of an event to the current job; the lemmas below relate them to
  the functions on contexts.
\<close>

fun get_view :: "context_view \<Rightarrow> context_view" where
  "get_view (subs, None, n) = (subs, Some (n, [], False), Suc n)"
| "get_view (subs, Some v, n) = (subs, Some v, n)"

fun clear_view :: "context_view \<Rightarrow> context_view" where
  "clear_view (subs, None, n) = (subs, Some (n, [Clear_applied], False), Suc n)"
| "clear_view (subs, Some (i, es, False), n) = (subs, Some (i, es @ [Clear_applied], False), n)"
| "clear_view (subs, Some (i, es, True), n) =
     (subs @ [(i, es, True)], Some (n, [Clear_applied], False), Suc n)"

fun draw_view :: "context_view \<Rightarrow> context_view" where
  "draw_view (subs, None, n) = (subs, Some (n, [Draw_packed], True), Suc n)"
| "draw_view (subs, Some (i, es, p), n) = (subs, Some (i, es @ [Draw_packed], True), n)"

fun add_event :: "job_event \<Rightarrow> bool \<Rightarrow> context_view \<Rightarrow> context_view" where
  "add_event ev d (subs, None, n) = (subs, None, n)"
| "add_event ev d (subs, Some (i, es, p), n) = (subs, Some (i, es @ [ev], p \<or> d), n)"

text \<open>
  The invariant of job splitting on views: in every job no clear follows a draw, serials
  are below the next serial and pairwise distinct, and a job that holds a draw event has
  a draw pending.
\<close>

definition jobs_of_view :: "context_view \<Rightarrow> job_view list" where
  "jobs_of_view v = (case v of (subs, cur, n) \<Rightarrow> subs @ (case cur of None \<Rightarrow> [] | Some j \<Rightarrow> [j]))"

definition view_inv :: "context_view \<Rightarrow> bool" where
  "view_inv v =
     ((\<forall>j \<in> set (jobs_of_view v).
         no_clear_after_draw (fst (snd j)) \<and> fst j < snd (snd v) \<and>
         (Draw_packed \<in> set (fst (snd j)) \<longrightarrow> snd (snd j))) \<and>
      distinct (map fst (jobs_of_view v)))"

definition pending_view :: "context_view \<Rightarrow> bool" where
  "pending_view v = (case v of (subs, Some (i, es, p), n) \<Rightarrow> p | _ \<Rightarrow> False)"

section \<open>Properties of the compute lowering\<close>

subsection \<open>Arithmetic of 32-bit words\<close>

lemma unat_word_of_nat_small:
  "n < 2 ^ 32 \<Longrightarrow> unat (word_of_nat n :: u32) = n"
  by (simp add: unat_of_nat)

lemma unat_add_sub_one:
  fixes p w :: u32
  assumes "0 < unat w" and "unat p + unat w \<le> 2 ^ 32"
  shows "unat (p + w - 1) = unat p + unat w - 1"
proof -
  have "p + w - 1 = word_of_nat (unat p + unat w - 1)"
    using assms(1) by (simp add: of_nat_diff)
  moreover have "unat p + unat w - 1 < 2 ^ 32" using assms by linarith
  ultimately show ?thesis by (simp only: unat_word_of_nat_small)
qed

lemma unat_mult3:
  fixes a b c :: u32
  assumes "unat a * unat b * unat c < 2 ^ 32"
  shows "unat (a * b * c) = unat a * unat b * unat c"
proof -
  have "a * b * c = word_of_nat (unat a * unat b * unat c)" by simp
  then show ?thesis using assms by (simp only: unat_word_of_nat_small)
qed

lemma ceiling_div_nat:
  fixes n w :: nat
  assumes w: "0 < w"
  shows "nat \<lceil>real n / real w\<rceil> = (n + w - 1) div w"
proof -
  define q where "q = (n + w - 1) div w"
  define r where "r = (n + w - 1) mod w"
  have eq: "n + w - 1 = q * w + r" and r: "r < w"
    using w by (simp_all add: q_def r_def)
  have up: "n \<le> q * w" using eq r by linarith
  have "int n + int w - 1 = int q * int w + int r"
    using eq w by (metis (no_types, lifting) Suc_leI add_gr_0 int_ops(2) of_nat_add of_nat_diff of_nat_mult One_nat_def)
  then have lo: "int q * int w - int w < int n" using r by linarith
  have "\<lceil>real n / real w\<rceil> = int q"
  proof (rule ceiling_unique)
    have "real_of_int (int q) * real w - real w < real n"
      using lo by (metis (mono_tags, opaque_lifting) of_int_diff of_int_less_iff of_int_mult of_int_of_nat_eq)
    then show "real_of_int (int q) - 1 < real n / real w"
      using w by (simp add: field_simps)
    have "real n \<le> real q * real w" using up by (metis of_nat_le_iff of_nat_mult)
    then show "real n / real w \<le> real_of_int (int q)"
      using w by (simp add: field_simps)
  qed
  then show ?thesis by (simp add: q_def)
qed

lemmas nir_alu_defs =
  nir_imul_def nir_iadd_def nir_iadd_imm_def nir_udiv_def nir_umod_def
  nir_ishl_def nir_ishr_def nir_iand_def nir_ior_def nir_imm_int_def nir_channel_def

subsection \<open>Groups of four consecutive linear positions\<close>

lemma even_word_unat: "even (w :: u32) \<longleftrightarrow> even (unat w)"
  by (metis even_of_nat mult.right_neutral unsigned_1 word_arith_nat_mult)

lemma unat_half: "unat (y :: u32) div 2 = unat (y div 2)"
  by (simp add: unat_div)

lemma ishl_one: "nir_ishl a (nir_imm_int 1) = 2 * a"
  by (simp add: nir_ishl_def nir_imm_int_def)

lemma double_even_dvd4:
  assumes "even (sx :: u32)"
  shows "4 dvd unat (2 * sx)"
proof -
  from assms obtain t where t: "sx = 2 * t" by (auto elim: evenE)
  have "unat (2 * sx) = (4 * unat t) mod 2 ^ 32"
    by (simp add: t unat_word_ariths)
  moreover have "(4::nat) dvd 2 ^ 32" by simp
  ultimately show ?thesis
    by (metis dvd_mod dvd_triv_left)
qed

lemma umod_same_group:
  fixes d l1 l2 :: u32
  assumes "4 dvd unat d" "unat l1 div 4 = unat l2 div 4"
  shows "unat (nir_umod l1 d) div 4 = unat (nir_umod l2 d) div 4"
proof -
  from assms(1) obtain e where e: "unat d = 4 * e" by (auto elim: dvdE)
  show ?thesis using assms(2)
    by (simp add: nir_umod_def unat_mod e mod_mult2_eq)
qed

lemma udiv_same_group:
  fixes d l1 l2 :: u32
  assumes "4 dvd unat d" "unat l1 div 4 = unat l2 div 4"
  shows "nir_udiv l1 d = nir_udiv l2 d"
proof -
  from assms(1) obtain e where e: "unat d = 4 * e" by (auto elim: dvdE)
  have "unat (l1 div d) = unat (l2 div d)" using assms(2)
    by (simp add: unat_div e div_mult2_eq)
  then show ?thesis
    by (simp add: nir_udiv_def word_unat_eq_iff)
qed

lemma umod_low_bits:
  fixes d l :: u32
  assumes "4 dvd unat d" "d \<noteq> 0"
  shows "unat (nir_umod l d) mod 4 = unat l mod 4"
proof -
  from assms(1) obtain e where e: "unat d = 4 * e" by (auto elim: dvdE)
  show ?thesis using assms(2)
    by (simp add: nir_umod_def unat_mod e mod_mult2_eq)
qed

lemma bits_above_2:
  fixes r1 r2 :: u32
  assumes "unat r1 div 4 = unat r2 div 4"
  shows "bit r1 (n + 2) = bit r2 (n + 2)"
proof -
  have "unat (r1 div 4) = unat (r2 div 4)"
    using assms by (simp add: unat_div)
  then have "r1 div 4 = r2 div 4" by (simp add: word_unat_eq_iff)
  then have "drop_bit 2 r1 = drop_bit 2 r2" by (simp add: drop_bit_eq_div)
  then have "bit (drop_bit 2 r1) n = bit (drop_bit 2 r2) n" by simp
  then show ?thesis by (simp add: bit_drop_bit_eq add.commute)
qed

lemma bit_mask_fffffffe: "bit (0xfffffffe :: u32) n \<longleftrightarrow> 0 < n \<and> n < 32"
proof -
  have "(0xfffffffe :: u32) = NOT 1" by simp
  then show ?thesis by (simp only: bit_not_iff bit_1_iff) auto
qed

lemma quad_x_same_group:
  fixes r1 r2 :: u32
  assumes "unat r1 div 4 = unat r2 div 4"
  shows "quad_x r1 div 2 = quad_x r2 div 2"
proof -
  have "drop_bit 1 (quad_x r1) = drop_bit 1 (quad_x r2)"
  proof (rule bit_word_eqI)
    fix n assume n: "n < LENGTH(32)"
    have "bit r1 (Suc (Suc n)) = bit r2 (Suc (Suc n))"
      using bits_above_2 [OF assms, of n] by simp
    moreover have "bit r1 31 = bit r2 31"
      using bits_above_2 [OF assms, of 29] by simp
    ultimately show "bit (drop_bit 1 (quad_x r1)) n = bit (drop_bit 1 (quad_x r2)) n"
      using n
      by (simp add: quad_x_def nir_ior_def nir_iand_def nir_ishr_def nir_imm_int_def
          bit_drop_bit_eq bit_or_iff bit_and_iff bit_signed_drop_bit_iff bit_mask_fffffffe bit_1_iff)
  qed
  then show ?thesis by (simp add: drop_bit_eq_div)
qed

lemma quad_y_same_group: "quad_y q r1 div 2 = quad_y q r2 div 2"
proof -
  have "drop_bit 1 (quad_y q r1) = drop_bit 1 (quad_y q r2)"
  proof (rule bit_word_eqI)
    fix n assume n: "n < LENGTH(32)"
    show "bit (drop_bit 1 (quad_y q r1)) n = bit (drop_bit 1 (quad_y q r2)) n"
      by (simp add: quad_y_def nir_ior_def nir_iand_def nir_ishr_def nir_ishl_def nir_imm_int_def
          bit_drop_bit_eq bit_or_iff bit_and_iff bit_1_iff)
  qed
  then show ?thesis by (simp add: drop_bit_eq_div)
qed

lemma umod_even_half:
  fixes y1 y2 sy :: u32
  assumes "even sy" "y1 div 2 = y2 div 2"
  shows "nir_umod y1 sy div 2 = nir_umod y2 sy div 2"
proof -
  from assms(1) have "even (unat sy)" by (simp add: even_word_unat)
  then obtain s where s: "unat sy = 2 * s" by (auto elim: evenE)
  have h: "unat y1 div 2 = unat y2 div 2"
    using assms(2) by (simp add: unat_half)
  have "unat (nir_umod y1 sy div 2) = unat (nir_umod y2 sy div 2)"
    using h by (simp add: nir_umod_def unat_div unat_mod s mod_mult2_eq)
  then show ?thesis by (simp add: word_unat_eq_iff)
qed

lemma udiv_even_half:
  fixes y1 y2 sy :: u32
  assumes "even sy" "y1 div 2 = y2 div 2"
  shows "nir_udiv y1 sy = nir_udiv y2 sy"
proof -
  from assms(1) have "even (unat sy)" by (simp add: even_word_unat)
  then obtain s where s: "unat sy = 2 * s" by (auto elim: evenE)
  have h: "unat y1 div 2 = unat y2 div 2"
    using assms(2) by (simp add: unat_half)
  have "unat (y1 div sy) = unat (y2 div sy)"
    using h by (simp add: unat_div s div_mult2_eq)
  then show ?thesis by (simp add: nir_udiv_def word_unat_eq_iff)
qed

lemma unat_mod2_bit: "unat (w :: u32) mod 2 = of_bool (bit w 0)"
  by (simp add: bit_0 even_word_unat mod_2_eq_odd)

lemma unat_div2_mod2_bit: "(unat (w :: u32) div 2) mod 2 = of_bool (bit w 1)"
proof -
  have "bit w 1 = bit (unat w) 1" by (simp add: bit_unsigned_iff)
  also have "\<dots> = odd (unat w div 2)" by (simp add: bit_iff_odd)
  finally show ?thesis by (simp add: mod_2_eq_odd)
qed

lemma quad_x_parity: "unat (quad_x r) mod 2 = unat r mod 2"
proof -
  have "bit (quad_x r) 0 = bit r 0"
    by (simp add: quad_x_def nir_ior_def nir_iand_def nir_ishr_def nir_imm_int_def
        bit_or_iff bit_and_iff bit_mask_fffffffe bit_1_iff)
  then show ?thesis by (simp add: unat_mod2_bit)
qed

lemma quad_y_parity: "unat (quad_y q r) mod 2 = (unat r div 2) mod 2"
proof -
  have "bit (quad_y q r) 0 = (bit (nir_ishl q (nir_imm_int 1)) 0 \<or> bit r 1)"
    by (simp add: quad_y_def nir_ior_def nir_iand_def nir_ishr_def nir_imm_int_def
        bit_or_iff bit_and_iff bit_signed_drop_bit_iff bit_1_iff)
  moreover have "\<not> bit (nir_ishl q (nir_imm_int 1)) 0"
    by (simp add: ishl_one bit_0)
  ultimately have "bit (quad_y q r) 0 = bit r 1" by simp
  then show ?thesis by (simp add: unat_mod2_bit unat_div2_mod2_bit)
qed

lemma umod_even_parity:
  fixes y sy :: u32
  assumes "even sy" "sy \<noteq> 0"
  shows "unat (nir_umod y sy) mod 2 = unat y mod 2"
proof -
  from assms(1) have "even (unat sy)" by (simp add: even_word_unat)
  then obtain s where s: "unat sy = 2 * s" by (auto elim: evenE)
  show ?thesis using assms(2)
    by (simp add: nir_umod_def unat_mod s mod_mult2_eq)
qed

lemma quads_unfold:
  assumes "derivative_group info = DERIVATIVE_GROUP_QUADS"
    and "(if local_size_variable info then load_local_group_size iv else local_size info) =
           (size_x, size_y, size_z)"
  shows "local_index_and_id info iv =
    (let r = nir_umod (linear_position iv) (2 * size_x);
         q = nir_udiv (linear_position iv) (2 * size_x);
         x = quad_x r;
         y = quad_y q r
     in (x + y * size_x, (x, nir_umod y size_y, nir_udiv y size_y)))"
proof -
  have sx: "(if local_size_variable info
             then nir_channel (load_local_group_size iv) 0
             else nir_channel (local_size info) 0) = size_x"
    using assms(2) by (auto simp: nir_channel_def split: if_splits)
  have sy: "(if local_size_variable info
             then nir_channel (load_local_group_size iv) 1
             else nir_channel (local_size info) 1) = size_y"
    using assms(2) by (auto simp: nir_channel_def split: if_splits)
  show ?thesis
    unfolding local_index_and_id_def Let_def sx sy linear_position_def quad_x_def quad_y_def
    using assms(1) by (simp add: ishl_one nir_iadd_def nir_imul_def)
qed

subsection \<open>The claims on the computed values\<close>

text \<open>
  Claim C4. In non-quad mode the replacement for \<^verbatim>\<open>local_invocation_index\<close> is
  \<open>subgroup_id * subgroup_width + lane\<close> and the replacement for
  \<^verbatim>\<open>local_invocation_id\<close> is \<open>(index mod size.x, (index div size.x) mod size.y,
  index div (size.x * size.y))\<close>, with no final remainder on \<open>z\<close>, all in unsigned 32-bit
  arithmetic. For workgroup size \<open>(4, 4, 1)\<close>, subgroup width 8, subgroup 0 and lane 5
  the index is 5 and the id is \<open>(1, 1, 0)\<close>.
\<close>

theorem linear_local_invocation:
  assumes "derivative_group info \<noteq> DERIVATIVE_GROUP_QUADS"
    and "(size_x, size_y, size_z) =
           (if local_size_variable info then load_local_group_size iv else local_size info)"
    and "size_x \<noteq> 0" and "size_y \<noteq> 0"
  shows "local_invocation_index info iv =
           load_subgroup_id iv * load_simd_width_intel iv + load_subgroup_invocation iv \<and>
         local_invocation_id info iv =
           (local_invocation_index info iv mod size_x,
            (local_invocation_index info iv div size_x) mod size_y,
            local_invocation_index info iv div (size_x * size_y)) \<and>
         local_invocation_index
           \<lparr>local_size_variable = False, local_size = (4, 4, 1),
            derivative_group = DERIVATIVE_GROUP_NONE\<rparr>
           \<lparr>load_subgroup_id = 0, load_simd_width_intel = 8,
            load_subgroup_invocation = 5, load_local_group_size = (0, 0, 0)\<rparr> = 5 \<and>
         local_invocation_id
           \<lparr>local_size_variable = False, local_size = (4, 4, 1),
            derivative_group = DERIVATIVE_GROUP_NONE\<rparr>
           \<lparr>load_subgroup_id = 0, load_simd_width_intel = 8,
            load_subgroup_invocation = 5, load_local_group_size = (0, 0, 0)\<rparr> = (1, 1, 0)"
proof -
  have sz: "(if local_size_variable info then load_local_group_size iv else local_size info) =
            (size_x, size_y, size_z)"
    using assms(2) by simp
  have idx: "local_invocation_index info iv =
           load_subgroup_id iv * load_simd_width_intel iv + load_subgroup_invocation iv"
    using assms(1)
    by (simp add: local_invocation_index_def local_index_and_id_def Let_def nir_alu_defs)
  have sx: "(if local_size_variable info
             then nir_channel (load_local_group_size iv) 0
             else nir_channel (local_size info) 0) = size_x"
    using sz by (auto simp: nir_channel_def split: if_splits)
  have sy: "(if local_size_variable info
             then nir_channel (load_local_group_size iv) 1
             else nir_channel (local_size info) 1) = size_y"
    using sz by (auto simp: nir_channel_def split: if_splits)
  have ident: "local_invocation_id info iv =
           (local_invocation_index info iv mod size_x,
            (local_invocation_index info iv div size_x) mod size_y,
            local_invocation_index info iv div (size_x * size_y))"
    using assms(1,3,4)
    by (simp add: local_invocation_id_def local_invocation_index_def local_index_and_id_def
        Let_def sx sy nir_imul_def nir_iadd_def nir_udiv_def nir_umod_def)
  have ex1: "local_invocation_index
           \<lparr>local_size_variable = False, local_size = (4, 4, 1),
            derivative_group = DERIVATIVE_GROUP_NONE\<rparr>
           \<lparr>load_subgroup_id = 0, load_simd_width_intel = 8,
            load_subgroup_invocation = 5, load_local_group_size = (0, 0, 0)\<rparr> = 5"
    by (simp add: local_invocation_index_def local_index_and_id_def Let_def nir_alu_defs)
  have ex2: "local_invocation_id
           \<lparr>local_size_variable = False, local_size = (4, 4, 1),
            derivative_group = DERIVATIVE_GROUP_NONE\<rparr>
           \<lparr>load_subgroup_id = 0, load_simd_width_intel = 8,
            load_subgroup_invocation = 5, load_local_group_size = (0, 0, 0)\<rparr> = (1, 1, 0)"
    by (simp add: local_invocation_id_def local_index_and_id_def Let_def nir_alu_defs)
  from idx ident ex1 ex2 show ?thesis by simp
qed

theorem linear_local_invocation_witness:
  "derivative_group \<lparr>local_size_variable = True, local_size = (0, 0, 0),
                     derivative_group = DERIVATIVE_GROUP_LINEAR\<rparr> \<noteq> DERIVATIVE_GROUP_QUADS \<and>
   (3::u32) \<noteq> 0 \<and> (4::u32) \<noteq> 0 \<and>
   local_invocation_index
     \<lparr>local_size_variable = True, local_size = (0, 0, 0),
      derivative_group = DERIVATIVE_GROUP_LINEAR\<rparr>
     \<lparr>load_subgroup_id = 1, load_simd_width_intel = 16,
      load_subgroup_invocation = 7, load_local_group_size = (3, 4, 2)\<rparr> = 23 \<and>
   local_invocation_id
     \<lparr>local_size_variable = True, local_size = (0, 0, 0),
      derivative_group = DERIVATIVE_GROUP_LINEAR\<rparr>
     \<lparr>load_subgroup_id = 1, load_simd_width_intel = 16,
      load_subgroup_invocation = 7, load_local_group_size = (3, 4, 2)\<rparr> = (2, 3, 1)"
  using linear_local_invocation
    [of "\<lparr>local_size_variable = True, local_size = (0, 0, 0),
          derivative_group = DERIVATIVE_GROUP_LINEAR\<rparr>"
        3 4 2
        "\<lparr>load_subgroup_id = 1, load_simd_width_intel = 16,
          load_subgroup_invocation = 7, load_local_group_size = (3, 4, 2)\<rparr>"]
  by simp

text \<open>
  Claim C5. The replacement for \<^verbatim>\<open>num_subgroups\<close> is \<open>(size + width - 1) div width\<close>
  in unsigned 32-bit arithmetic, where \<open>size\<close> is the product of the three workgroup
  dimensions, compile-time or loaded at run time. For a nonzero width, and as long as
  \<open>size + width\<close> stays within 32 bits, this is the ceiling of
  \<open>total_invocations / subgroup_width\<close>. For 70 invocations and width 16 it is 5.
\<close>

theorem num_subgroups_ceiling:
  assumes "(size_x, size_y, size_z) =
           (if local_size_variable info then load_local_group_size iv else local_size info)"
    and "load_simd_width_intel iv \<noteq> 0"
    and "unat size_x * unat size_y * unat size_z + unat (load_simd_width_intel iv) \<le> 2 ^ 32"
  shows "num_subgroups info iv =
           (size_x * size_y * size_z + load_simd_width_intel iv - 1) div load_simd_width_intel iv \<and>
         unat (num_subgroups info iv) =
           (unat size_x * unat size_y * unat size_z + unat (load_simd_width_intel iv) - 1)
             div unat (load_simd_width_intel iv) \<and>
         int (unat (num_subgroups info iv)) =
           \<lceil>real (unat size_x * unat size_y * unat size_z) / real (unat (load_simd_width_intel iv))\<rceil> \<and>
         num_subgroups
           \<lparr>local_size_variable = False, local_size = (7, 5, 2),
            derivative_group = DERIVATIVE_GROUP_NONE\<rparr>
           \<lparr>load_subgroup_id = 0, load_simd_width_intel = 16,
            load_subgroup_invocation = 0, load_local_group_size = (0, 0, 0)\<rparr> = 5"
proof -
  let ?w = "load_simd_width_intel iv"
  let ?n = "unat size_x * unat size_y * unat size_z"
  have sz: "(if local_size_variable info then load_local_group_size iv else local_size info) =
            (size_x, size_y, size_z)"
    using assms(1) by simp
  have w: "0 < unat ?w" using assms(2) by (simp add: unat_gt_0)
  have word_form: "num_subgroups info iv = (size_x * size_y * size_z + ?w - 1) div ?w"
    using sz by (auto simp: num_subgroups_def Let_def nir_alu_defs split: if_splits)
  have n: "?n < 2 ^ 32" using assms(3) w by linarith
  have prod: "unat (size_x * size_y * size_z) = ?n" using n by (rule unat_mult3)
  have "unat (size_x * size_y * size_z + ?w - 1) = ?n + unat ?w - 1"
    using unat_add_sub_one [of ?w "size_x * size_y * size_z"] w assms(3) prod by simp
  then have nat_form: "unat (num_subgroups info iv) = (?n + unat ?w - 1) div unat ?w"
    by (simp add: word_form unat_div)
  have ceil: "int (unat (num_subgroups info iv)) = \<lceil>real ?n / real (unat ?w)\<rceil>"
  proof -
    have "0 \<le> real ?n / real (unat ?w)"
      by (intro divide_nonneg_nonneg of_nat_0_le_iff)
    then have "0 \<le> \<lceil>real ?n / real (unat ?w)\<rceil>" using ceiling_mono [of 0 "real ?n / real (unat ?w)"] by (simp only: ceiling_zero)
    then show ?thesis using ceiling_div_nat [OF w, of ?n] nat_form by linarith
  qed
  have ex: "num_subgroups
           \<lparr>local_size_variable = False, local_size = (7, 5, 2),
            derivative_group = DERIVATIVE_GROUP_NONE\<rparr>
           \<lparr>load_subgroup_id = 0, load_simd_width_intel = 16,
            load_subgroup_invocation = 0, load_local_group_size = (0, 0, 0)\<rparr> = 5"
    by (simp add: num_subgroups_def Let_def nir_alu_defs)
  from word_form nat_form ceil ex show ?thesis by simp
qed

theorem num_subgroups_ceiling_witness:
  "load_simd_width_intel
     \<lparr>load_subgroup_id = 0, load_simd_width_intel = 16,
      load_subgroup_invocation = 0, load_local_group_size = (70, 1, 1)\<rparr> \<noteq> 0 \<and>
   unat (70::u32) * unat (1::u32) * unat (1::u32) + unat (16::u32) \<le> 2 ^ 32 \<and>
   unat (num_subgroups
     \<lparr>local_size_variable = True, local_size = (0, 0, 0),
      derivative_group = DERIVATIVE_GROUP_NONE\<rparr>
     \<lparr>load_subgroup_id = 0, load_simd_width_intel = 16,
      load_subgroup_invocation = 0, load_local_group_size = (70, 1, 1)\<rparr>) = 5"
  using num_subgroups_ceiling
    [of 70 1 1
        "\<lparr>local_size_variable = True, local_size = (0, 0, 0),
          derivative_group = DERIVATIVE_GROUP_NONE\<rparr>"
        "\<lparr>load_subgroup_id = 0, load_simd_width_intel = 16,
          load_subgroup_invocation = 0, load_local_group_size = (70, 1, 1)\<rparr>"]
  by simp

text \<open>
  Claim C1. In quad mode with even \<open>size.x\<close> and \<open>size.y\<close>, with \<open>x\<close> and \<open>y\<close>
  obtained by \<open>quad_x\<close> and \<open>quad_y\<close> from \<open>linear mod (2 * size.x)\<close> and
  \<open>linear div (2 * size.x)\<close>, the id is \<open>(x, y mod size.y, y div size.y)\<close> and the index is
  \<open>x + y * size.x\<close>. Two invocations at linear positions \<open>4 * k + j1\<close> and
  \<open>4 * k + j2\<close> with \<open>j1, j2 < 4\<close> have the same \<open>id.x div 2\<close>, the same
  \<open>id.y div 2\<close> and the same \<open>id.z\<close>; for nonzero sizes the invocation at
  \<open>4 * k + j\<close> sits in cell \<open>(j mod 2, j div 2)\<close> of that quad.
\<close>

theorem quads_share_2x2:
  assumes quads: "derivative_group info = DERIVATIVE_GROUP_QUADS"
    and sz1: "(size_x, size_y, size_z) =
           (if local_size_variable info then load_local_group_size iv1 else local_size info)"
    and sz2: "(size_x, size_y, size_z) =
           (if local_size_variable info then load_local_group_size iv2 else local_size info)"
    and ex: "even size_x" and ey: "even size_y"
    and l1: "unat (linear_position iv1) = 4 * k + j1" and j1: "j1 < 4"
    and l2: "unat (linear_position iv2) = 4 * k + j2" and j2: "j2 < 4"
  shows "(let r = nir_umod (linear_position iv1) (2 * size_x);
              q = nir_udiv (linear_position iv1) (2 * size_x);
              x = quad_x r;
              y = quad_y q r
          in local_invocation_id info iv1 = (x, nir_umod y size_y, nir_udiv y size_y) \<and>
             local_invocation_index info iv1 = x + y * size_x) \<and>
         nir_channel (local_invocation_id info iv1) 0 div 2 =
           nir_channel (local_invocation_id info iv2) 0 div 2 \<and>
         nir_channel (local_invocation_id info iv1) 1 div 2 =
           nir_channel (local_invocation_id info iv2) 1 div 2 \<and>
         nir_channel (local_invocation_id info iv1) 2 =
           nir_channel (local_invocation_id info iv2) 2 \<and>
         (2 * size_x \<noteq> 0 \<and> size_y \<noteq> 0 \<longrightarrow>
            unat (nir_channel (local_invocation_id info iv1) 0) mod 2 = j1 mod 2 \<and>
            unat (nir_channel (local_invocation_id info iv1) 1) mod 2 = j1 div 2)"
proof -
  let ?d = "2 * size_x"
  let ?r1 = "nir_umod (linear_position iv1) ?d"
  let ?r2 = "nir_umod (linear_position iv2) ?d"
  let ?q1 = "nir_udiv (linear_position iv1) ?d"
  let ?q2 = "nir_udiv (linear_position iv2) ?d"
  have u1: "local_index_and_id info iv1 =
      (quad_x ?r1 + quad_y ?q1 ?r1 * size_x,
       (quad_x ?r1, nir_umod (quad_y ?q1 ?r1) size_y, nir_udiv (quad_y ?q1 ?r1) size_y))"
    using quads_unfold [OF quads sz1 [symmetric]] by (simp add: Let_def)
  have u2: "local_index_and_id info iv2 =
      (quad_x ?r2 + quad_y ?q2 ?r2 * size_x,
       (quad_x ?r2, nir_umod (quad_y ?q2 ?r2) size_y, nir_udiv (quad_y ?q2 ?r2) size_y))"
    using quads_unfold [OF quads sz2 [symmetric]] by (simp add: Let_def)
  have d4: "4 dvd unat ?d" using ex by (rule double_even_dvd4)
  have grp: "unat (linear_position iv1) div 4 = unat (linear_position iv2) div 4"
    using l1 l2 j1 j2 by simp
  have r: "unat ?r1 div 4 = unat ?r2 div 4" using d4 grp by (rule umod_same_group)
  have q: "?q1 = ?q2" using d4 grp by (rule udiv_same_group)
  have x: "quad_x ?r1 div 2 = quad_x ?r2 div 2" using r by (rule quad_x_same_group)
  have y: "quad_y ?q1 ?r1 div 2 = quad_y ?q2 ?r2 div 2"
    unfolding q by (rule quad_y_same_group)
  have idy: "nir_umod (quad_y ?q1 ?r1) size_y div 2 = nir_umod (quad_y ?q2 ?r2) size_y div 2"
    using ey y by (rule umod_even_half)
  have idz: "nir_udiv (quad_y ?q1 ?r1) size_y = nir_udiv (quad_y ?q2 ?r2) size_y"
    using ey y by (rule udiv_even_half)
  have struct: "(let r = ?r1; q = ?q1; x = quad_x r; y = quad_y q r
          in local_invocation_id info iv1 = (x, nir_umod y size_y, nir_udiv y size_y) \<and>
             local_invocation_index info iv1 = x + y * size_x)"
    by (simp add: Let_def local_invocation_id_def local_invocation_index_def u1)
  have cells: "unat (nir_channel (local_invocation_id info iv1) 0) mod 2 = j1 mod 2 \<and>
            unat (nir_channel (local_invocation_id info iv1) 1) mod 2 = j1 div 2"
    if nz: "2 * size_x \<noteq> 0" "size_y \<noteq> 0"
  proof -
    have low: "unat ?r1 mod 4 = j1"
      using umod_low_bits [OF d4 nz(1), of "linear_position iv1"] l1 j1 by simp
    have "unat (quad_x ?r1) mod 2 = unat ?r1 mod 2" by (rule quad_x_parity)
    also have "\<dots> = (unat ?r1 mod 4) mod 2" by (simp add: mod_mod_cancel)
    finally have cx: "unat (quad_x ?r1) mod 2 = j1 mod 2" by (simp only: low)
    have "unat (nir_umod (quad_y ?q1 ?r1) size_y) mod 2 = unat (quad_y ?q1 ?r1) mod 2"
      using ey nz(2) by (rule umod_even_parity)
    also have "\<dots> = (unat ?r1 div 2) mod 2" by (rule quad_y_parity)
    also have "\<dots> = (unat ?r1 mod 4) div 2"
      using mod_mult2_eq [of "unat ?r1" 2 2] by simp
    finally have cy: "unat (nir_umod (quad_y ?q1 ?r1) size_y) mod 2 = j1 div 2"
      by (simp only: low)
    show ?thesis using cx cy by (simp add: local_invocation_id_def u1 nir_channel_def)
  qed
  have sx: "nir_channel (local_invocation_id info iv1) 0 div 2 =
           nir_channel (local_invocation_id info iv2) 0 div 2"
    using x by (simp add: local_invocation_id_def u1 u2 nir_channel_def)
  have sy: "nir_channel (local_invocation_id info iv1) 1 div 2 =
           nir_channel (local_invocation_id info iv2) 1 div 2"
    using idy by (simp add: local_invocation_id_def u1 u2 nir_channel_def)
  have sz: "nir_channel (local_invocation_id info iv1) 2 =
           nir_channel (local_invocation_id info iv2) 2"
    using idz by (simp add: local_invocation_id_def u1 u2 nir_channel_def)
  from struct sx sy sz cells show ?thesis by blast
qed

theorem quads_share_2x2_witness:
  "derivative_group \<lparr>local_size_variable = False, local_size = (4, 2, 1),
                     derivative_group = DERIVATIVE_GROUP_QUADS\<rparr> = DERIVATIVE_GROUP_QUADS \<and>
   even (4 :: u32) \<and> even (2 :: u32) \<and>
   unat (linear_position \<lparr>load_subgroup_id = 0, load_simd_width_intel = 8,
           load_subgroup_invocation = 5, load_local_group_size = (0, 0, 0)\<rparr>) = 4 * 1 + 1 \<and>
   unat (linear_position \<lparr>load_subgroup_id = 0, load_simd_width_intel = 8,
           load_subgroup_invocation = 6, load_local_group_size = (0, 0, 0)\<rparr>) = 4 * 1 + 2 \<and>
   (1 :: nat) < 4 \<and> (2 :: nat) < 4 \<and> 2 * (4 :: u32) \<noteq> 0 \<and> (2 :: u32) \<noteq> 0 \<and>
   nir_channel (local_invocation_id
       \<lparr>local_size_variable = False, local_size = (4, 2, 1),
        derivative_group = DERIVATIVE_GROUP_QUADS\<rparr>
       \<lparr>load_subgroup_id = 0, load_simd_width_intel = 8,
        load_subgroup_invocation = 5, load_local_group_size = (0, 0, 0)\<rparr>) 0 div 2 =
   nir_channel (local_invocation_id
       \<lparr>local_size_variable = False, local_size = (4, 2, 1),
        derivative_group = DERIVATIVE_GROUP_QUADS\<rparr>
       \<lparr>load_subgroup_id = 0, load_simd_width_intel = 8,
        load_subgroup_invocation = 6, load_local_group_size = (0, 0, 0)\<rparr>) 0 div 2 \<and>
   nir_channel (local_invocation_id
       \<lparr>local_size_variable = False, local_size = (4, 2, 1),
        derivative_group = DERIVATIVE_GROUP_QUADS\<rparr>
       \<lparr>load_subgroup_id = 0, load_simd_width_intel = 8,
        load_subgroup_invocation = 5, load_local_group_size = (0, 0, 0)\<rparr>) 1 div 2 =
   nir_channel (local_invocation_id
       \<lparr>local_size_variable = False, local_size = (4, 2, 1),
        derivative_group = DERIVATIVE_GROUP_QUADS\<rparr>
       \<lparr>load_subgroup_id = 0, load_simd_width_intel = 8,
        load_subgroup_invocation = 6, load_local_group_size = (0, 0, 0)\<rparr>) 1 div 2 \<and>
   unat (nir_channel (local_invocation_id
       \<lparr>local_size_variable = False, local_size = (4, 2, 1),
        derivative_group = DERIVATIVE_GROUP_QUADS\<rparr>
       \<lparr>load_subgroup_id = 0, load_simd_width_intel = 8,
        load_subgroup_invocation = 5, load_local_group_size = (0, 0, 0)\<rparr>) 0) mod 2 = 1 mod 2"
  using quads_share_2x2
    [of "\<lparr>local_size_variable = False, local_size = (4, 2, 1),
          derivative_group = DERIVATIVE_GROUP_QUADS\<rparr>"
        4 2 1
        "\<lparr>load_subgroup_id = 0, load_simd_width_intel = 8,
          load_subgroup_invocation = 5, load_local_group_size = (0, 0, 0)\<rparr>"
        "\<lparr>load_subgroup_id = 0, load_simd_width_intel = 8,
          load_subgroup_invocation = 6, load_local_group_size = (0, 0, 0)\<rparr>"
        1 1 2]
  by (simp add: linear_position_def nir_iadd_def nir_imul_def)

section \<open>Properties of the progress flag and of the procedural-leaf test\<close>

lemma convert_instrs_progress:
  "fst (convert_instrs p h xs) = (p \<or> (\<exists>i \<in> set xs. is_replaced i))"
proof (induction xs arbitrary: p h)
  case Nil
  then show ?case by simp
next
  case (Cons x xs)
  show ?case
  proof (cases x)
    case (Intrinsic op bit_size)
    then show ?thesis by (simp add: Cons.IH case_prod_beta)
  next
    case (Emitted c)
    then show ?thesis by (simp add: Cons.IH case_prod_beta)
  next
    case Other_instr
    then show ?thesis by (simp add: Cons.IH case_prod_beta)
  qed
qed

lemma convert_impl_progress:
  "fst (lower_cs_intrinsics_convert_impl p blocks) =
     (p \<or> (\<exists>b \<in> set blocks. \<exists>i \<in> set b. is_replaced i))"
proof (induction blocks arbitrary: p)
  case Nil
  then show ?case by simp
next
  case (Cons b blocks)
  have "fst (convert_instrs p False b) = (p \<or> (\<exists>i \<in> set b. is_replaced i))"
    by (rule convert_instrs_progress)
  then show ?case
    by (cases "convert_instrs p False b")
       (auto simp: lower_cs_intrinsics_convert_block_def Cons.IH case_prod_beta)
qed

lemma convert_functions_progress:
  "fst (convert_functions p fs) =
     (p \<or> (\<exists>impl. Some impl \<in> set fs \<and> (\<exists>b \<in> set impl. \<exists>i \<in> set b. is_replaced i)))"
proof (induction p fs rule: convert_functions.induct)
  case (1 p)
  then show ?case by simp
next
  case (2 p fs)
  then show ?case by (simp add: case_prod_beta)
next
  case (3 p impl fs)
  have "fst (lower_cs_intrinsics_convert_impl p impl) =
         (p \<or> (\<exists>b \<in> set impl. \<exists>i \<in> set b. is_replaced i))"
    by (rule convert_impl_progress)
  with 3 show ?case
    by (cases "lower_cs_intrinsics_convert_impl p impl") (auto simp: case_prod_beta)
qed

lemma progress_iff_replaced:
  assumes "brw_nir_lower_cs_intrinsics nir = Some (nir', progress)"
  shows "progress =
     (\<exists>impl. Some impl \<in> set (shader_functions nir) \<and>
             (\<exists>b \<in> set impl. \<exists>i \<in> set b. is_replaced i))"
proof -
  from assms have "progress = fst (convert_functions False (shader_functions nir))"
    by (auto simp: brw_nir_lower_cs_intrinsics_def case_prod_beta split: if_splits)
  then show ?thesis by (simp add: convert_functions_progress)
qed

text \<open>
  Claim C3. The claim is that the returned flag is true exactly when the pass rewrote
  something, the narrowing of a 64-bit \<^verbatim>\<open>load_work_group_id\<close> included. On a shader
  whose only intrinsic is a 64-bit \<^verbatim>\<open>load_work_group_id\<close> the pass narrows the
  destination to 32 bits and inserts the conversion, and returns \<open>False\<close>: the narrowing
  case leaves the loop iteration before \<^verbatim>\<open>state->progress\<close> is set.
\<close>

theorem narrowing_reports_no_progress:
  "brw_nir_lower_cs_intrinsics
     \<lparr>info_stage = MESA_SHADER_COMPUTE,
      info_cs = \<lparr>local_size_variable = False, local_size = (8, 1, 1),
                 derivative_group = DERIVATIVE_GROUP_NONE\<rparr>,
      shader_functions = [Some [[Intrinsic nir_intrinsic_load_work_group_id 64]]]\<rparr> =
   Some (\<lparr>info_stage = MESA_SHADER_COMPUTE,
           info_cs = \<lparr>local_size_variable = False, local_size = (8, 1, 1),
                      derivative_group = DERIVATIVE_GROUP_NONE\<rparr>,
           shader_functions =
             [Some [[Intrinsic nir_intrinsic_load_work_group_id 32, Emitted Code_u2u64]]]\<rparr>,
         False)"
  by (simp add: brw_nir_lower_cs_intrinsics_def lower_cs_intrinsics_convert_block_def)

text \<open>
  Claim C6. Whether the hit leaf is procedural is decided per shader stage: constantly
  false in an any-hit shader, constantly true in an intersection shader, and in every
  other stage the comparison of the hit record's leaf type with the procedural node-type
  constant. The three intrinsics that depend on it use this test.
\<close>

theorem leaf_is_procedural_per_stage:
  "build_leaf_is_procedural k MESA_SHADER_ANY_HIT hit = False \<and>
   build_leaf_is_procedural k MESA_SHADER_INTERSECTION hit = True \<and>
   (shader_stage \<noteq> MESA_SHADER_ANY_HIT \<and> shader_stage \<noteq> MESA_SHADER_INTERSECTION \<longrightarrow>
      build_leaf_is_procedural k shader_stage hit =
        (leaf_type hit = word_of_int (BRW_RT_BVH_NODE_TYPE_PROCEDURAL k))) \<and>
   leaf_procedural_intel k shader_stage hit = build_leaf_is_procedural k shader_stage hit \<and>
   primitive_id_offset k shader_stage hit =
     (if build_leaf_is_procedural k shader_stage hit then prim_leaf_index hit + 12 else 8) \<and>
   ray_hit_kind k shader_stage hit =
     (if build_leaf_is_procedural k shader_stage hit then aabb_hit_kind hit
      else if front_face hit then word_of_int (BRW_RT_HIT_KIND_FRONT_FACE k)
      else word_of_int (BRW_RT_HIT_KIND_BACK_FACE k))"
  by (cases shader_stage)
     (simp_all add: build_leaf_is_procedural_def leaf_procedural_intel_def primitive_id_offset_def
        ray_hit_kind_def nir_bcsel_def nir_ieq_def nir_imm_int_def nir_iadd_imm_def)

theorem leaf_is_procedural_per_stage_witness:
  "MESA_SHADER_CLOSEST_HIT \<noteq> MESA_SHADER_ANY_HIT \<and>
   MESA_SHADER_CLOSEST_HIT \<noteq> MESA_SHADER_INTERSECTION \<and>
   build_leaf_is_procedural
     \<lparr>BRW_RT_BVH_NODE_TYPE_PROCEDURAL = 3, BRW_RT_HIT_KIND_FRONT_FACE = 254,
      BRW_RT_HIT_KIND_BACK_FACE = 255\<rparr>
     MESA_SHADER_CLOSEST_HIT
     \<lparr>leaf_type = 3, front_face = True, aabb_hit_kind = 7, prim_leaf_index = 2\<rparr> = True \<and>
   primitive_id_offset
     \<lparr>BRW_RT_BVH_NODE_TYPE_PROCEDURAL = 3, BRW_RT_HIT_KIND_FRONT_FACE = 254,
      BRW_RT_HIT_KIND_BACK_FACE = 255\<rparr>
     MESA_SHADER_CLOSEST_HIT
     \<lparr>leaf_type = 3, front_face = True, aabb_hit_kind = 7, prim_leaf_index = 2\<rparr> = 14"
  using leaf_is_procedural_per_stage
    [of "\<lparr>BRW_RT_BVH_NODE_TYPE_PROCEDURAL = 3, BRW_RT_HIT_KIND_FRONT_FACE = 254,
          BRW_RT_HIT_KIND_BACK_FACE = 255\<rparr>"
        "\<lparr>leaf_type = 3, front_face = True, aabb_hit_kind = 7, prim_leaf_index = 2\<rparr>"
        MESA_SHADER_CLOSEST_HIT]
  by simp

section \<open>Properties of the stack-offset bookkeeping\<close>

lemma exec_hotzone_append:
  "exec_hotzone e (xs @ ys) h = exec_hotzone e ys (exec_hotzone e xs h)"
  by (induction e xs h rule: exec_hotzone.induct) simp_all












lemma word_of_int_sint32: "word_of_int (sint (S :: 32 word)) = S"
  by simp

text \<open>
  As long as no push marker has been lowered, the hotzone holds the value of
  \<^verbatim>\<open>stack_base_offset\<close>; a push marker of positive size stores that value plus the
  size.
\<close>

lemma lower_rt_instr_tracks_offset:
  assumes "lower_rt_instr s f st i = Some (st', out)"
    and "\<forall>r. i \<noteq> Rt_intrinsic (nir_intrinsic_btd_stack_push_intel r)"
  shows "exec_hotzone e out (eval_offset e (stack_base_offset st)) =
         eval_offset e (stack_base_offset st')"
  using assms
  by (cases "(s, f, st, i)" rule: lower_rt_instr.cases) (auto simp: Let_def split: if_splits)

lemma lower_rt_instrs_tracks_offset:
  assumes "lower_rt_instrs s f st xs = Some (st', out)"
    and "\<forall>r. Rt_intrinsic (nir_intrinsic_btd_stack_push_intel r) \<notin> set xs"
  shows "exec_hotzone e out (eval_offset e (stack_base_offset st)) =
         eval_offset e (stack_base_offset st')"
  using assms
proof (induction xs arbitrary: st out)
  case Nil
  then show ?case by simp
next
  case (Cons x xs)
  from Cons.prems(1) obtain st1 o1 o2 where
    x: "lower_rt_instr s f st x = Some (st1, o1)" and
    xs: "lower_rt_instrs s f st1 xs = Some (st', o2)" and
    out: "out = o1 @ o2"
    by (auto split: option.splits)
  from Cons.prems(2) have nx: "\<forall>r. x \<noteq> Rt_intrinsic (nir_intrinsic_btd_stack_push_intel r)"
    and nxs: "\<forall>r. Rt_intrinsic (nir_intrinsic_btd_stack_push_intel r) \<notin> set xs" by auto
  show ?case
    using lower_rt_instr_tracks_offset [OF x nx, of e] Cons.IH [OF xs nxs]
    by (simp add: out exec_hotzone_append)
qed

lemma push_stores_child_offset:
  assumes "0 < sint S"
    and "lower_rt_instr s f st (Rt_intrinsic (nir_intrinsic_btd_stack_push_intel S)) = Some (st', out)"
  shows "st' = st \<and> exec_hotzone e out h = eval_offset e (stack_base_offset st) + S"
  using assms by (auto simp: Let_def nir_iadd_imm_def)



section \<open>Properties of the draw-command packer\<close>

subsection \<open>Scissor clipping\<close>

lemma clipped_scissor_update: "clipped_scissor (c\<lparr>clipped_scissor := X\<rparr>) = X"
  by simp

lemma clip_explicit:
  "clipped_scissor (lima_clip_scissor_to_viewport ctx) =
    (let s = scissor_or_framebuffer ctx;
         v = viewport_in_framebuffer ctx;
         x1 = word_of_int (min (uint (maxx s)) (rect_maxx v));
         x0 = word_of_int (max (uint (minx s)) (rect_minx v));
         y1 = word_of_int (min (uint (maxy s)) (rect_maxy v));
         y0 = word_of_int (max (uint (miny s)) (rect_miny v))
     in \<lparr>minx = (if x0 > x1 then x1 else x0), maxx = x1,
         miny = (if y0 > y1 then y1 else y0), maxy = y1\<rparr>)"
proof (cases "rasterizer_scissor ctx = Some True")
  case True
  show ?thesis
    unfolding lima_clip_scissor_to_viewport_def scissor_or_framebuffer_def
      viewport_in_framebuffer_def Let_def
    by (simp only: True if_True simp_thms clipped_scissor_update pipe_scissor_state.simps
        int_rect.simps)
next
  case False
  show ?thesis
    unfolding lima_clip_scissor_to_viewport_def scissor_or_framebuffer_def
      viewport_in_framebuffer_def Let_def
    by (simp only: False if_False simp_thms clipped_scissor_update pipe_scissor_state.simps
        int_rect.simps)
qed

lemma uint_store_in_range:
  "0 \<le> k \<Longrightarrow> k \<le> 65535 \<Longrightarrow> uint (word_of_int k :: 16 word) = k"
  by (simp add: uint_word_of_int take_bit_eq_mod)

lemma interval_clip:
  fixes a b l r :: int
  shows "{x. (if max a l > min b r then min b r else max a l) \<le> x \<and> x < min b r} =
         {x. a \<le> x \<and> x < b} \<inter> {x. l \<le> x \<and> x < r}"
  by auto

text \<open>
  One axis of the clip on stored values: when the clamped viewport maximum is not
  negative and the clamped viewport minimum fits in 16 bits, nothing wraps and the range
  of covered coordinates is the intersection of the two ranges.
\<close>

lemma clip_axis_in_range:
  fixes smin smax :: "16 word" and vmin vmax :: int
  assumes "0 \<le> vmax" and "vmin \<le> 65535"
  defines "hi \<equiv> (word_of_int (min (uint smax) vmax) :: 16 word)"
    and "lo \<equiv> (word_of_int (max (uint smin) vmin) :: 16 word)"
  shows "{x. uint (if lo > hi then hi else lo) \<le> x \<and> x < uint hi} =
         {x. uint smin \<le> x \<and> x < uint smax} \<inter> {x. vmin \<le> x \<and> x < vmax}"
proof -
  have b16: "uint w \<le> 65535" for w :: "16 word"
    using uint_lt2p [of w] by simp
  have hi: "uint hi = min (uint smax) vmax"
    unfolding hi_def using assms(1) b16 [of smax]
    by (intro uint_store_in_range) auto
  have lo: "uint lo = max (uint smin) vmin"
    unfolding lo_def using assms(2) b16 [of smin]
    by (intro uint_store_in_range) (auto simp: le_max_iff_disj)
  have "uint (if lo > hi then hi else lo) =
        (if max (uint smin) vmin > min (uint smax) vmax then min (uint smax) vmax
         else max (uint smin) vmin)"
    by (simp add: word_less_def hi lo)
  then show ?thesis
    unfolding hi by (simp only: interval_clip)
qed

lemma clip_scissor_is_intersection_in_range:
  assumes "0 \<le> viewport_right (viewport ctx)" and "0 \<le> viewport_top (viewport ctx)"
    and "viewport_left (viewport ctx) \<le> 65535" and "viewport_bottom (viewport ctx) \<le> 65535"
  shows "{x. uint (minx (clipped_scissor (lima_clip_scissor_to_viewport ctx))) \<le> x \<and>
             x < uint (maxx (clipped_scissor (lima_clip_scissor_to_viewport ctx)))} =
           {x. uint (minx (scissor_or_framebuffer ctx)) \<le> x \<and>
               x < uint (maxx (scissor_or_framebuffer ctx))} \<inter>
           {x. rect_minx (viewport_in_framebuffer ctx) \<le> x \<and>
               x < rect_maxx (viewport_in_framebuffer ctx)}"
    and "{y. uint (miny (clipped_scissor (lima_clip_scissor_to_viewport ctx))) \<le> y \<and>
             y < uint (maxy (clipped_scissor (lima_clip_scissor_to_viewport ctx)))} =
           {y. uint (miny (scissor_or_framebuffer ctx)) \<le> y \<and>
               y < uint (maxy (scissor_or_framebuffer ctx))} \<inter>
           {y. rect_miny (viewport_in_framebuffer ctx) \<le> y \<and>
               y < rect_maxy (viewport_in_framebuffer ctx)}"
proof -
  have vx1: "0 \<le> rect_maxx (viewport_in_framebuffer ctx)"
    using assms(1) by (simp add: viewport_in_framebuffer_def)
  have vy1: "0 \<le> rect_maxy (viewport_in_framebuffer ctx)"
    using assms(2) by (simp add: viewport_in_framebuffer_def)
  have vx0: "rect_minx (viewport_in_framebuffer ctx) \<le> 65535"
    using assms(3) by (simp add: viewport_in_framebuffer_def)
  have vy0: "rect_miny (viewport_in_framebuffer ctx) \<le> 65535"
    using assms(4) by (simp add: viewport_in_framebuffer_def)
  show "{x. uint (minx (clipped_scissor (lima_clip_scissor_to_viewport ctx))) \<le> x \<and>
             x < uint (maxx (clipped_scissor (lima_clip_scissor_to_viewport ctx)))} =
           {x. uint (minx (scissor_or_framebuffer ctx)) \<le> x \<and>
               x < uint (maxx (scissor_or_framebuffer ctx))} \<inter>
           {x. rect_minx (viewport_in_framebuffer ctx) \<le> x \<and>
               x < rect_maxx (viewport_in_framebuffer ctx)}"
    unfolding clip_explicit Let_def pipe_scissor_state.simps
    by (rule clip_axis_in_range [OF vx1 vx0])
  show "{y. uint (miny (clipped_scissor (lima_clip_scissor_to_viewport ctx))) \<le> y \<and>
             y < uint (maxy (clipped_scissor (lima_clip_scissor_to_viewport ctx)))} =
           {y. uint (miny (scissor_or_framebuffer ctx)) \<le> y \<and>
               y < uint (maxy (scissor_or_framebuffer ctx))} \<inter>
           {y. rect_miny (viewport_in_framebuffer ctx) \<le> y \<and>
               y < rect_maxy (viewport_in_framebuffer ctx)}"
    unfolding clip_explicit Let_def pipe_scissor_state.simps
    by (rule clip_axis_in_range [OF vy1 vy0])
qed

text \<open>
  After the clip the minimum never exceeds the maximum, so a rectangle that is not
  degenerate has its minimum below its maximum on both axes.
\<close>

lemma clip_not_zero_is_ordered:
  assumes "\<not> lima_is_scissor_zero (lima_clip_scissor_to_viewport ctx)"
  shows "minx (clipped_scissor (lima_clip_scissor_to_viewport ctx)) <
           maxx (clipped_scissor (lima_clip_scissor_to_viewport ctx))"
    and "miny (clipped_scissor (lima_clip_scissor_to_viewport ctx)) <
           maxy (clipped_scissor (lima_clip_scissor_to_viewport ctx))"
  using assms
  by (auto simp: lima_is_scissor_zero_def clip_explicit Let_def split: if_splits)

text \<open>The example of the specification: the clipped rectangle is \<open>(10, 90, 10, 50)\<close>.\<close>

lemma clip_scissor_example:
  "clipped_scissor (lima_clip_scissor_to_viewport example_context) =
     \<lparr>minx = 10, maxx = 90, miny = 10, maxy = 50\<rparr>"
  by (simp add: clip_explicit Let_def scissor_or_framebuffer_def viewport_in_framebuffer_def
      example_context_def word_less_def)

text \<open>
  A viewport wholly to the left of the framebuffer: the right edge \<open>-100\<close> is stored
  to \<^verbatim>\<open>maxx\<close> as 65436.
\<close>

lemma clip_left_of_framebuffer:
  "clipped_scissor
     (lima_clip_scissor_to_viewport
        (example_context\<lparr>viewport := \<lparr>viewport_left = - 200, viewport_right = - 100,
                                         viewport_bottom = 0, viewport_top = 50\<rparr>\<rparr>)) =
     \<lparr>minx = 10, maxx = 65436, miny = 10, maxy = 50\<rparr>"
  by (simp add: clip_explicit Let_def scissor_or_framebuffer_def viewport_in_framebuffer_def
      example_context_def word_less_def)

text \<open>
  Claim C7. The claim is that for every draw the clipped scissor rectangle is the
  intersection of the scissor rectangle with the viewport rectangle clamped to the
  framebuffer, with the minimum clamped to the maximum where it would exceed it. The
  viewport's right edge is clamped from above only. For a viewport wholly to the left of
  a 100 by 100 framebuffer, from \<open>-200\<close> to \<open>-100\<close>, with scissor
  \<open>(10, 90, 10, 60)\<close>, the clamped viewport range and the scissor range do not meet,
  but the code stores \<open>-100\<close> to the unsigned 16-bit field \<^verbatim>\<open>maxx\<close>, where it
  becomes 65436: the clipped rectangle is \<open>(10, 65436, 10, 50)\<close>, which is not
  degenerate.
\<close>

theorem clip_scissor_wraps_for_negative_viewport_right:
  "clipped_scissor
     (lima_clip_scissor_to_viewport
        (example_context\<lparr>viewport := \<lparr>viewport_left = - 200, viewport_right = - 100,
                                         viewport_bottom = 0, viewport_top = 50\<rparr>\<rparr>)) =
     \<lparr>minx = 10, maxx = 65436, miny = 10, maxy = 50\<rparr> \<and>
   \<not> lima_is_scissor_zero
     (lima_clip_scissor_to_viewport
        (example_context\<lparr>viewport := \<lparr>viewport_left = - 200, viewport_right = - 100,
                                         viewport_bottom = 0, viewport_top = 50\<rparr>\<rparr>)) \<and>
   {x. uint (minx (scissor_or_framebuffer
          (example_context\<lparr>viewport := \<lparr>viewport_left = - 200, viewport_right = - 100,
                                           viewport_bottom = 0, viewport_top = 50\<rparr>\<rparr>))) \<le> x \<and>
       x < uint (maxx (scissor_or_framebuffer
          (example_context\<lparr>viewport := \<lparr>viewport_left = - 200, viewport_right = - 100,
                                           viewport_bottom = 0, viewport_top = 50\<rparr>\<rparr>)))} \<inter>
   {x. rect_minx (viewport_in_framebuffer
          (example_context\<lparr>viewport := \<lparr>viewport_left = - 200, viewport_right = - 100,
                                           viewport_bottom = 0, viewport_top = 50\<rparr>\<rparr>)) \<le> x \<and>
       x < rect_maxx (viewport_in_framebuffer
          (example_context\<lparr>viewport := \<lparr>viewport_left = - 200, viewport_right = - 100,
                                           viewport_bottom = 0, viewport_top = 50\<rparr>\<rparr>))} = {}"
proof -
  let ?ctx = "example_context\<lparr>viewport := \<lparr>viewport_left = - 200, viewport_right = - 100,
                                               viewport_bottom = 0, viewport_top = 50\<rparr>\<rparr>"
  have c: "clipped_scissor (lima_clip_scissor_to_viewport ?ctx) =
             \<lparr>minx = 10, maxx = 65436, miny = 10, maxy = 50\<rparr>"
    by (rule clip_left_of_framebuffer)
  have z: "\<not> lima_is_scissor_zero (lima_clip_scissor_to_viewport ?ctx)"
    by (simp add: lima_is_scissor_zero_def c)
  have e: "{x. uint (minx (scissor_or_framebuffer ?ctx)) \<le> x \<and>
               x < uint (maxx (scissor_or_framebuffer ?ctx))} \<inter>
           {x. rect_minx (viewport_in_framebuffer ?ctx) \<le> x \<and>
               x < rect_maxx (viewport_in_framebuffer ?ctx)} = {}"
    by (auto simp: scissor_or_framebuffer_def viewport_in_framebuffer_def example_context_def)
  from c z e show ?thesis by simp
qed

subsection \<open>The depth-range word\<close>

lemma depth_range_low:
  "(ucast (ucast (n :: 16 word) OR push_bit 16 (ucast (f :: 16 word)) :: u32) :: 16 word) = n"
  by (rule bit_word_eqI) (auto simp: bit_simps)

lemma depth_range_high:
  "(ucast (drop_bit 16 (ucast (n :: 16 word) OR push_bit 16 (ucast (f :: 16 word)) :: u32)) :: 16 word) = f"
  by (rule bit_word_eqI) (auto simp: bit_simps dest: bit_imp_le_length)

lemma word16_pred_less: "(n :: 16 word) \<noteq> 0 \<Longrightarrow> n - 1 < n"
  by (simp add: word_less_nat_alt unat_minus_one unat_gt_0)

text \<open>
  Claim C10. The depth-range word is \<open>near OR (far << 16)\<close> of the two converted 16-bit
  values, so its low half is the packed near value and its high half the far value. When
  the converted values are equal and nonzero the near value is decremented by one before
  packing, and otherwise it is packed as it is. Hence for \<open>near \<le> far\<close> the packed near
  value is strictly below the packed far value unless both are zero.
\<close>

theorem depth_range_packing:
  "render_depth_range n f =
     ucast (render_depth_near n f) OR push_bit 16 (ucast f) \<and>
   (ucast (render_depth_range n f) :: 16 word) = render_depth_near n f \<and>
   (ucast (drop_bit 16 (render_depth_range n f)) :: 16 word) = f \<and>
   (f = n \<and> n \<noteq> 0 \<longrightarrow> render_depth_near n f = n - 1) \<and>
   (\<not> (f = n \<and> n \<noteq> 0) \<longrightarrow> render_depth_near n f = n) \<and>
   (n \<le> f \<longrightarrow> render_depth_near n f < f \<or> (n = 0 \<and> f = 0))"
proof -
  have pack: "render_depth_range n f =
     ucast (render_depth_near n f) OR push_bit 16 (ucast f)"
    by (simp add: render_depth_range_def Let_def)
  have low: "(ucast (render_depth_range n f) :: 16 word) = render_depth_near n f"
    unfolding pack by (rule depth_range_low)
  have high: "(ucast (drop_bit 16 (render_depth_range n f)) :: 16 word) = f"
    unfolding pack by (rule depth_range_high)
  have dec: "f = n \<and> n \<noteq> 0 \<longrightarrow> render_depth_near n f = n - 1"
    by (simp add: render_depth_near_def)
  have keep: "\<not> (f = n \<and> n \<noteq> 0) \<longrightarrow> render_depth_near n f = n"
    by (simp add: render_depth_near_def)
  have ord: "n \<le> f \<longrightarrow> render_depth_near n f < f \<or> (n = 0 \<and> f = 0)"
  proof
    assume le: "n \<le> f"
    show "render_depth_near n f < f \<or> (n = 0 \<and> f = 0)"
    proof (cases "f = n")
      case True
      then show ?thesis
        using word16_pred_less [of n] by (auto simp: render_depth_near_def)
    next
      case False
      with le have "n < f" by simp
      with False show ?thesis by (simp add: render_depth_near_def)
    qed
  qed
  from pack low high dec keep ord show ?thesis by blast
qed

theorem depth_range_packing_witness:
  "((0x8000 :: 16 word) = 0x8000 \<and> (0x8000 :: 16 word) \<noteq> 0) \<and> (0x8000 :: 16 word) \<le> 0x8000 \<and>
   render_depth_near 0x8000 0x8000 = 0x7fff \<and>
   render_depth_range 0x8000 0x8000 = 0x80007fff \<and>
   \<not> ((0xffff :: 16 word) = 0 \<and> (0 :: 16 word) \<noteq> 0) \<and>
   render_depth_range 0 0xffff = 0xffff0000"
  using depth_range_packing [where n = "0x8000" and f = "0x8000"]
    depth_range_packing [where n = 0 and f = "0xffff"]
  by (simp add: render_depth_near_def)

subsection \<open>Job splitting and skipped draws\<close>

lemma view_job_update:
  assumes "\<And>j. view_of_job (f j) = view_of_job j"
  shows "view_of_context (job_update f ctx) = view_of_context ctx"
  using assms by (cases "current_job ctx") (simp_all add: view_of_context_def job_update_def)

lemma view_add_bo: "view_of_job (lima_job_add_bo p b a j) = view_of_job j"
  by (simp add: view_of_job_def lima_job_add_bo_def lima_job_has_draw_pending_def)

lemma view_job_get: "view_of_context (fst (lima_job_get ctx)) = get_view (view_of_context ctx)"
  by (cases "current_job ctx")
     (simp_all add: view_of_context_def lima_job_get_def Let_def view_of_job_def
        lima_job_new_def lima_job_has_draw_pending_def)

lemma get_view_idem: "get_view (get_view v) = get_view v"
  by (cases v rule: get_view.cases) simp_all

lemma job_get_current:
  "current_job (fst (lima_job_get ctx)) = Some (snd (lima_job_get ctx))"
  by (cases "current_job ctx") (simp_all add: lima_job_get_def Let_def)

lemma job_get_again: "lima_job_get (fst (lima_job_get ctx)) = lima_job_get ctx"
  by (cases "current_job ctx") (simp_all add: lima_job_get_def Let_def)

lemma view_update_job_wb:
  "view_of_context (lima_update_job_wb ctx buffers) = get_view (view_of_context ctx)"
proof -
  have r: "view_of_job (j\<lparr>resolve := resolve j \<union> buffers\<rparr>) = view_of_job j" for j
    by (simp add: view_of_job_def lima_job_has_draw_pending_def)
  obtain a b where g: "lima_job_get ctx = (a, b)" by (cases "lima_job_get ctx")
  have va: "view_of_context a = get_view (view_of_context ctx)"
    using view_job_get [of ctx] g by simp
  show ?thesis
    unfolding lima_update_job_wb_def Let_def g
    by (simp add: view_job_update [OF r] view_job_update [OF view_add_bo] va)
qed

lemma view_field_updates:
  "view_of_context (ctx\<lparr>cbuf_reload := a\<rparr>) = view_of_context ctx"
  "view_of_context (ctx\<lparr>zsbuf_reload := b\<rparr>) = view_of_context ctx"
  "view_of_context (ctx\<lparr>dirty := d\<rparr>) = view_of_context ctx"
  "view_of_context (ctx\<lparr>clipped_scissor := c\<rparr>) = view_of_context ctx"
  "view_of_context (ctx\<lparr>ctx_min_index := lo\<rparr>) = view_of_context ctx"
  "view_of_context (ctx\<lparr>ctx_max_index := hi\<rparr>) = view_of_context ctx"
  by (simp_all add: view_of_context_def)

lemma view_do_job:
  "view_of_context (lima_do_job ctx job) =
     (fst (view_of_context ctx) @ [view_of_job job], None, next_job_serial ctx)"
  by (simp add: view_of_context_def lima_do_job_def)

lemma view_clear_event:
  "view_of_context
     (job_update (\<lambda>j. j\<lparr>clear_buffers := b, job_events := job_events j @ [Clear_applied]\<rparr>) ctx) =
   add_event Clear_applied False (view_of_context ctx)"
  by (cases "current_job ctx")
     (simp_all add: view_of_context_def job_update_def view_of_job_def
        lima_job_has_draw_pending_def)

lemma view_stencil:
  "view_of_context (job_update (\<lambda>j. j\<lparr>clear_stencil := s\<rparr>) ctx) = view_of_context ctx"
  by (rule view_job_update) (simp add: view_of_job_def lima_job_has_draw_pending_def)

lemma view_damage:
  "view_of_context (job_update (\<lambda>j. j\<lparr>damage_rect := f j\<rparr>) ctx) = view_of_context ctx"
  by (rule view_job_update) (simp add: view_of_job_def lima_job_has_draw_pending_def)

lemma job_get_view_of_job:
  "get_view (view_of_context ctx) =
     (fst (view_of_context ctx), Some (view_of_job (snd (lima_job_get ctx))),
      next_job_serial (fst (lima_job_get ctx)))"
  by (cases "current_job ctx")
     (simp_all add: view_of_context_def lima_job_get_def Let_def view_of_job_def
        lima_job_new_def lima_job_has_draw_pending_def)

lemma view_clear:
  "view_of_context (lima_clear ctx buffers stencil) = clear_view (view_of_context ctx)"
proof -
  obtain ctx0 job where g: "lima_job_get ctx = (ctx0, job)" by (cases "lima_job_get ctx")
  have v0: "view_of_context ctx0 = get_view (view_of_context ctx)"
    using view_job_get [of ctx] g by simp
  have vj: "get_view (view_of_context ctx) =
      (fst (view_of_context ctx), Some (view_of_job job), next_job_serial ctx0)"
    using job_get_view_of_job [of ctx] g by simp
  define ctx1 where "ctx1 = (if lima_job_has_draw_pending job
                      then fst (lima_job_get (lima_do_job ctx0 job)) else ctx0)"
  have v1: "view_of_context ctx1 =
     (if lima_job_has_draw_pending job
      then (fst (view_of_context ctx) @ [view_of_job job],
            Some (next_job_serial ctx0, [], False), Suc (next_job_serial ctx0))
      else get_view (view_of_context ctx))"
    using v0 vj by (simp add: ctx1_def view_job_get view_do_job)
  have v: "view_of_context (lima_clear ctx buffers stencil) =
           add_event Clear_applied False (get_view (view_of_context ctx1))"
  proof (cases "lima_job_has_draw_pending job")
    case True
    then show ?thesis
      unfolding lima_clear_def g Let_def ctx1_def
      by (simp add: view_field_updates view_clear_event view_stencil view_damage
          view_update_job_wb)
  next
    case False
    then show ?thesis
      unfolding lima_clear_def g Let_def ctx1_def
      by (simp add: view_field_updates view_clear_event view_stencil view_damage
          view_update_job_wb)
  qed
  show ?thesis
  proof (cases "current_job ctx")
    case None
    then have vc: "view_of_context ctx = (map view_of_job (submitted_jobs ctx), None, next_job_serial ctx)"
      by (simp add: view_of_context_def)
    from None g have "\<not> lima_job_has_draw_pending job"
      by (auto simp: lima_job_get_def Let_def lima_job_new_def lima_job_has_draw_pending_def)
    then show ?thesis using v v1 by (simp add: vc)
  next
    case (Some j)
    then have vc: "view_of_context ctx =
        (map view_of_job (submitted_jobs ctx), Some (view_of_job j), next_job_serial ctx)"
      by (simp add: view_of_context_def)
    from Some g have j: "job = j" "ctx0 = ctx" by (auto simp: lima_job_get_def)
    show ?thesis
      using v v1
      by (cases "lima_job_has_draw_pending j")
         (simp_all add: vc j view_of_job_def)
  qed
qed

lemma no_clear_after_draw_snoc_draw:
  "no_clear_after_draw (es @ [Draw_packed]) = no_clear_after_draw es"
  by (induction es rule: no_clear_after_draw.induct) auto

lemma no_clear_after_draw_snoc_clear:
  "no_clear_after_draw (es @ [Clear_applied]) = (Draw_packed \<notin> set es)"
proof (induction es rule: no_clear_after_draw.induct)
  case 1
  then show ?case by simp
next
  case (2 es)
  then show ?case by simp
next
  case (3 es)
  then show ?case by simp
qed

lemma no_draw_no_clear_after_draw: "Draw_packed \<notin> set es \<Longrightarrow> no_clear_after_draw es"
  by (induction es rule: no_clear_after_draw.induct) auto

lemma view_inv_get: "view_inv v \<Longrightarrow> view_inv (get_view v)"
  by (cases v rule: get_view.cases) (fastforce simp: view_inv_def jobs_of_view_def)+

lemma view_inv_draw: "view_inv v \<Longrightarrow> view_inv (draw_view v)"
  by (cases v rule: draw_view.cases)
     (fastforce simp: view_inv_def jobs_of_view_def no_clear_after_draw_snoc_draw)+

lemma view_inv_clear: "view_inv v \<Longrightarrow> view_inv (clear_view v)"
  by (cases v rule: clear_view.cases)
     (fastforce simp: view_inv_def jobs_of_view_def no_clear_after_draw_snoc_clear)+

lemma draw_view_get: "draw_view (get_view v) = draw_view v"
  by (cases v rule: get_view.cases) simp_all

lemma view_pack_vs:
  "view_of_context (lima_pack_vs_cmd ctx info draw) = get_view (view_of_context ctx)"
proof -
  obtain a b where g: "lima_job_get ctx = (a, b)" by (cases "lima_job_get ctx")
  have va: "view_of_context a = get_view (view_of_context ctx)"
    using view_job_get [of ctx] g by simp
  have r: "view_of_job (j\<lparr>vs_cmd_array := vs_cmd_array j @ [c]\<rparr>) = view_of_job j" for j c
    by (simp add: view_of_job_def lima_job_has_draw_pending_def)
  show ?thesis
    unfolding lima_pack_vs_cmd_def g by (simp add: view_job_update [OF r] va)
qed

lemma view_draw_event:
  "view_of_context
     (job_update (\<lambda>j. j\<lparr>plbu_cmd_array := plbu_cmd_array j @ [c1, c2],
                          damage_rect := d j,
                          job_events := job_events j @ [Draw_packed]\<rparr>) ctx) =
   add_event Draw_packed True (view_of_context ctx)"
  by (cases "current_job ctx")
     (simp_all add: view_of_context_def job_update_def view_of_job_def
        lima_job_has_draw_pending_def)

lemma add_draw_get: "add_event Draw_packed True (get_view v) = draw_view v"
  by (cases v rule: draw_view.cases) simp_all

lemma view_pack_plbu:
  "view_of_context (lima_pack_plbu_cmd ctx info draw) = draw_view (view_of_context ctx)"
proof -
  obtain a b where g: "lima_job_get ctx = (a, b)" by (cases "lima_job_get ctx")
  have va: "view_of_context a = get_view (view_of_context ctx)"
    using view_job_get [of ctx] g by simp
  show ?thesis
    unfolding lima_pack_plbu_cmd_def g Let_def
    by (simp add: view_draw_event va add_draw_get)
qed

lemma view_draw_vbo_update:
  "view_of_context (lima_draw_vbo_update ctx info draw) = draw_view (view_of_context ctx)"
  unfolding lima_draw_vbo_update_def Let_def
  by (simp add: view_field_updates view_pack_plbu view_pack_vs view_update_job_wb draw_view_get)

lemma view_draw_vbo_indexed:
  "view_of_context (lima_draw_vbo_indexed ctx info draw) = draw_view (view_of_context ctx)"
proof -
  obtain a b where g: "lima_job_get ctx = (a, b)" by (cases "lima_job_get ctx")
  have va: "view_of_context a = get_view (view_of_context ctx)"
    using view_job_get [of ctx] g by simp
  show ?thesis
    unfolding lima_draw_vbo_indexed_def g Let_def
    by (simp add: view_draw_vbo_update view_job_update [OF view_add_bo] view_field_updates va
        draw_view_get split: option.split)
qed

lemma view_inv_count_loop:
  "view_inv (view_of_context ctx) \<Longrightarrow>
   view_inv (view_of_context (lima_draw_vbo_count_loop ctx info local_draw start n))"
proof (induction ctx info local_draw start n rule: lima_draw_vbo_count_loop.induct)
  case (1 ctx info local_draw start n)
  show ?case
  proof (cases "n = 0")
    case True
    then show ?thesis using "1.prems" by simp
  next
    case False
    obtain this_count step where u: "u_split_draw 65535 n = (this_count, step)"
      by (cases "u_split_draw 65535 n")
    have "view_inv (view_of_context (lima_draw_vbo_update ctx info
            (local_draw\<lparr>draw_start := start, draw_count := this_count\<rparr>)))"
      using "1.prems" by (simp add: view_draw_vbo_update view_inv_draw)
    from "1.IH" [OF False u [symmetric] this] False u show ?thesis
      by (simp del: lima_draw_vbo_count_loop.simps
               add: lima_draw_vbo_count_loop.simps [of ctx info local_draw start n])
  qed
qed

lemma view_pp_max_stack_size:
  "view_of_context (job_update (\<lambda>j. j\<lparr>pp_max_stack_size := m j\<rparr>) ctx) = view_of_context ctx"
  by (rule view_job_update) (simp add: view_of_job_def lima_job_has_draw_pending_def)

lemma view_inv_draw_single:
  assumes "view_inv (view_of_context ctx)"
  shows "view_inv (view_of_context (lima_draw_vbo_single ctx info draw))"
proof -
  let ?c1 = "lima_clip_scissor_to_viewport ctx"
  have c1: "view_of_context ?c1 = view_of_context ctx"
    by (simp add: lima_clip_scissor_to_viewport_def Let_def view_field_updates)
  obtain a b where g: "lima_job_get ?c1 = (a, b)" by (cases "lima_job_get ?c1")
  have va: "view_of_context a = get_view (view_of_context ctx)"
    using view_job_get [of ?c1] g c1 by simp
  let ?c5 = "job_update (lima_job_add_bo LIMA_PIPE_PP Bo_fs LIMA_SUBMIT_BO_READ)
              (job_update (lima_job_add_bo LIMA_PIPE_GP Bo_vs LIMA_SUBMIT_BO_READ)
                (job_update (\<lambda>j. j\<lparr>pp_max_stack_size :=
                                       max (pp_max_stack_size j) (fs_stack_size a)\<rparr>) a))"
  have v5: "view_inv (view_of_context ?c5)"
    using assms by (simp add: view_job_update [OF view_add_bo] view_pp_max_stack_size va view_inv_get)
  have i: "view_inv (view_of_context (lima_draw_vbo_indexed ?c5 info draw))"
    using v5 by (simp only: view_draw_vbo_indexed view_inv_draw)
  have c: "view_inv (view_of_context (lima_draw_vbo_count ?c5 info draw))"
    unfolding lima_draw_vbo_count_def using v5 by (rule view_inv_count_loop)
  show ?thesis
    unfolding lima_draw_vbo_single_def Let_def g
    using assms i c by (simp add: c1)
qed

lemma view_inv_run_calls:
  "view_inv (view_of_context ctx) \<Longrightarrow> view_inv (view_of_context (run_calls ctx calls))"
proof (induction calls arbitrary: ctx)
  case Nil
  then show ?case by simp
next
  case (Cons c calls)
  have "view_inv (view_of_context (run_call ctx c))"
    using Cons.prems by (cases c) (simp_all add: view_clear view_inv_clear view_inv_draw_single)
  then show ?case using Cons.IH by simp
qed

lemma view_inv_all_jobs:
  assumes "view_inv (view_of_context ctx)" and "j \<in> set (all_jobs ctx)"
  shows "no_clear_after_draw (job_events j)"
proof -
  from assms(2) have "view_of_job j \<in> set (jobs_of_view (view_of_context ctx))"
    by (auto simp: all_jobs_def jobs_of_view_def view_of_context_def split: option.splits)
  with assms(1) show ?thesis
    by (auto simp: view_inv_def view_of_job_def)
qed

lemma view_inv_fresh:
  "current_job ctx = None \<Longrightarrow> submitted_jobs ctx = [] \<Longrightarrow> view_inv (view_of_context ctx)"
  by (simp add: view_inv_def view_of_context_def jobs_of_view_def)

lemma job_update_current: "current_job (job_update f ctx) = map_option f (current_job ctx)"
  by (simp add: job_update_def)

lemma job_update_submitted: "submitted_jobs (job_update f ctx) = submitted_jobs ctx"
  by (simp add: job_update_def)

lemma job_get_submitted: "submitted_jobs (fst (lima_job_get ctx)) = submitted_jobs ctx"
  by (cases "current_job ctx") (simp_all add: lima_job_get_def Let_def)

lemma update_job_wb_submitted:
  "submitted_jobs (lima_update_job_wb ctx buffers) = submitted_jobs ctx"
proof -
  obtain a b where g: "lima_job_get ctx = (a, b)" by (cases "lima_job_get ctx")
  have "submitted_jobs a = submitted_jobs ctx" using job_get_submitted [of ctx] g by simp
  then show ?thesis
    unfolding lima_update_job_wb_def g Let_def by (simp add: job_update_submitted)
qed

lemma clear_submitted:
  "submitted_jobs (lima_clear ctx buffers stencil) =
     (case current_job ctx of
        None \<Rightarrow> submitted_jobs ctx
      | Some j \<Rightarrow> if lima_job_has_draw_pending j then submitted_jobs ctx @ [j]
                  else submitted_jobs ctx)"
proof (cases "current_job ctx")
  case None
  then have g: "lima_job_get ctx =
      (ctx\<lparr>current_job := Some (lima_job_new (next_job_serial ctx)),
            next_job_serial := Suc (next_job_serial ctx)\<rparr>, lima_job_new (next_job_serial ctx))"
    by (simp add: lima_job_get_def Let_def)
  have np: "\<not> lima_job_has_draw_pending (lima_job_new n)" for n
    by (simp add: lima_job_has_draw_pending_def lima_job_new_def)
  show ?thesis
    unfolding lima_clear_def g Let_def
    by (simp add: None np job_update_submitted update_job_wb_submitted)
next
  case (Some j)
  then have g: "lima_job_get ctx = (ctx, j)" by (simp add: lima_job_get_def)
  show ?thesis
    unfolding lima_clear_def g Let_def
    by (simp add: Some job_update_submitted update_job_wb_submitted job_get_submitted
        lima_do_job_def)
qed

lemma update_job_wb_current:
  "\<exists>j. current_job (lima_update_job_wb ctx buffers) = Some j"
proof -
  obtain a b where g: "lima_job_get ctx = (a, b)" by (cases "lima_job_get ctx")
  have "current_job a = Some b" using job_get_current [of ctx] g by simp
  then show ?thesis
    unfolding lima_update_job_wb_def g Let_def by (simp add: job_update_current)
qed

lemma clear_sets_clear_buffers:
  "\<exists>j. current_job (lima_clear ctx buffers stencil) = Some j \<and> clear_buffers j = buffers"
proof -
  obtain ctx0 job where g: "lima_job_get ctx = (ctx0, job)" by (cases "lima_job_get ctx")
  define ctx1 where "ctx1 = (if lima_job_has_draw_pending job
                      then fst (lima_job_get (lima_do_job ctx0 job)) else ctx0)"
  obtain j2 where j2: "current_job (lima_update_job_wb ctx1 buffers) = Some j2"
    using update_job_wb_current by blast
  show ?thesis
    unfolding lima_clear_def g Let_def
    using j2 by (simp add: ctx1_def job_update_current split: if_splits)
qed

text \<open>
  Claim C8. When \<^verbatim>\<open>lima_clear\<close> is called while the current job has a draw pending,
  that job is submitted and the clear is recorded in a new job, whose only event is the
  clear. When the current job has no draw pending, the job is kept and the clear is added
  to it; a job that has just been cleared has no draw pending, so a second clear stays in
  the same job. Starting from a context without jobs, after any sequence of clear and
  draw calls no job, submitted or current, has clear state applied after a draw.
\<close>

theorem clear_after_draw_starts_new_job:
  "(\<forall>j. current_job ctx = Some j \<and> lima_job_has_draw_pending j \<longrightarrow>
        submitted_jobs (lima_clear ctx buffers stencil) = submitted_jobs ctx @ [j] \<and>
        (\<exists>j'. current_job (lima_clear ctx buffers stencil) = Some j' \<and>
              job_serial j' = next_job_serial ctx \<and>
              job_events j' = [Clear_applied] \<and>
              clear_buffers j' = buffers \<and>
              \<not> lima_job_has_draw_pending j')) \<and>
   (\<forall>j. current_job ctx = Some j \<and> \<not> lima_job_has_draw_pending j \<longrightarrow>
        submitted_jobs (lima_clear ctx buffers stencil) = submitted_jobs ctx \<and>
        (\<exists>j'. current_job (lima_clear ctx buffers stencil) = Some j' \<and>
              job_serial j' = job_serial j \<and>
              job_events j' = job_events j @ [Clear_applied] \<and>
              clear_buffers j' = buffers \<and>
              \<not> lima_job_has_draw_pending j')) \<and>
   submitted_jobs (lima_clear (lima_clear ctx buffers stencil) buffers' stencil') =
     submitted_jobs (lima_clear ctx buffers stencil) \<and>
   map_option job_serial (current_job (lima_clear (lima_clear ctx buffers stencil) buffers' stencil')) =
     map_option job_serial (current_job (lima_clear ctx buffers stencil)) \<and>
   (current_job ctx = None \<and> submitted_jobs ctx = [] \<longrightarrow>
      (\<forall>j \<in> set (all_jobs (run_calls ctx calls)). no_clear_after_draw (job_events j)))"
proof -
  let ?c = "lima_clear ctx buffers stencil"
  obtain j' where j': "current_job ?c = Some j'" "clear_buffers j' = buffers"
    using clear_sets_clear_buffers by blast
  have vc: "view_of_context ?c = clear_view (view_of_context ctx)" by (rule view_clear)
  have flush: "submitted_jobs ?c = submitted_jobs ctx @ [j] \<and>
        (\<exists>j'. current_job ?c = Some j' \<and> job_serial j' = next_job_serial ctx \<and>
              job_events j' = [Clear_applied] \<and> clear_buffers j' = buffers \<and>
              \<not> lima_job_has_draw_pending j')"
    if "current_job ctx = Some j" "lima_job_has_draw_pending j" for j
  proof -
    have "view_of_job j' = (next_job_serial ctx, [Clear_applied], False)"
      using vc that j'(1) by (simp add: view_of_context_def view_of_job_def)
    then show ?thesis using that j' by (simp add: clear_submitted view_of_job_def)
  qed
  have reuse: "submitted_jobs ?c = submitted_jobs ctx \<and>
        (\<exists>j'. current_job ?c = Some j' \<and> job_serial j' = job_serial j \<and>
              job_events j' = job_events j @ [Clear_applied] \<and> clear_buffers j' = buffers \<and>
              \<not> lima_job_has_draw_pending j')"
    if "current_job ctx = Some j" "\<not> lima_job_has_draw_pending j" for j
  proof -
    have "view_of_job j' = (job_serial j, job_events j @ [Clear_applied], False)"
      using vc that j'(1) by (simp add: view_of_context_def view_of_job_def)
    then show ?thesis using that j' by (simp add: clear_submitted view_of_job_def)
  qed
  have nopend: "\<not> lima_job_has_draw_pending j'"
  proof -
    have "snd (snd (view_of_job j')) = False"
      using vc j'(1)
      by (cases "view_of_context ctx" rule: clear_view.cases)
         (auto simp: view_of_context_def)
    then show ?thesis by (simp add: view_of_job_def)
  qed
  have again: "submitted_jobs (lima_clear ?c buffers' stencil') = submitted_jobs ?c \<and>
     map_option job_serial (current_job (lima_clear ?c buffers' stencil')) =
     map_option job_serial (current_job ?c)"
  proof -
    obtain j'' where j'': "current_job (lima_clear ?c buffers' stencil') = Some j''"
      using clear_sets_clear_buffers by blast
    have "view_of_context (lima_clear ?c buffers' stencil') = clear_view (view_of_context ?c)"
      by (rule view_clear)
    then have "job_serial j'' = job_serial j'"
      using j'(1) j'' nopend by (simp add: view_of_context_def view_of_job_def)
    then show ?thesis using j'(1) j'' nopend by (simp add: clear_submitted)
  qed
  have inv: "\<forall>j \<in> set (all_jobs (run_calls ctx calls)). no_clear_after_draw (job_events j)"
    if "current_job ctx = None" "submitted_jobs ctx = []"
    using view_inv_all_jobs [OF view_inv_run_calls [OF view_inv_fresh [OF that]]] by blast
  from flush reuse again inv show ?thesis by blast
qed

theorem clear_after_draw_starts_new_job_witness:
  "current_job (example_context\<lparr>current_job :=
       Some ((lima_job_new 0)\<lparr>plbu_cmd_array := [PLBU_CMD_DRAW_ARRAYS 0 3],
                                job_events := [Draw_packed]\<rparr>),
       next_job_serial := 1\<rparr>) =
     Some ((lima_job_new 0)\<lparr>plbu_cmd_array := [PLBU_CMD_DRAW_ARRAYS 0 3],
                              job_events := [Draw_packed]\<rparr>) \<and>
   lima_job_has_draw_pending
     ((lima_job_new 0)\<lparr>plbu_cmd_array := [PLBU_CMD_DRAW_ARRAYS 0 3],
                         job_events := [Draw_packed]\<rparr>) \<and>
   submitted_jobs
     (lima_clear (example_context\<lparr>current_job :=
          Some ((lima_job_new 0)\<lparr>plbu_cmd_array := [PLBU_CMD_DRAW_ARRAYS 0 3],
                                   job_events := [Draw_packed]\<rparr>),
          next_job_serial := 1\<rparr>) {PIPE_CLEAR_COLOR0} 0) =
     [(lima_job_new 0)\<lparr>plbu_cmd_array := [PLBU_CMD_DRAW_ARRAYS 0 3],
                        job_events := [Draw_packed]\<rparr>] \<and>
   current_job (example_context\<lparr>current_job := Some (lima_job_new 0), next_job_serial := 1\<rparr>) =
     Some (lima_job_new 0) \<and>
   \<not> lima_job_has_draw_pending (lima_job_new 0) \<and>
   submitted_jobs
     (lima_clear (example_context\<lparr>current_job := Some (lima_job_new 0), next_job_serial := 1\<rparr>)
        {PIPE_CLEAR_COLOR0} 0) = [] \<and>
   current_job example_context = None \<and> submitted_jobs example_context = [] \<and>
   list_all (\<lambda>j. no_clear_after_draw (job_events j))
     (all_jobs (run_calls example_context
        [Call_clear {PIPE_CLEAR_COLOR0} 0,
         Call_draw example_draw_info
                   \<lparr>draw_start = 0, draw_count = 3, prim_ok = True\<rparr>,
         Call_clear {PIPE_CLEAR_DEPTH} 0]))"
  using clear_after_draw_starts_new_job
      [of "example_context\<lparr>current_job :=
             Some ((lima_job_new 0)\<lparr>plbu_cmd_array := [PLBU_CMD_DRAW_ARRAYS 0 3],
                                      job_events := [Draw_packed]\<rparr>),
             next_job_serial := 1\<rparr>"
          "{PIPE_CLEAR_COLOR0}" 0 "{}" 0 "[]"]
    clear_after_draw_starts_new_job
      [of "example_context\<lparr>current_job := Some (lima_job_new 0), next_job_serial := 1\<rparr>"
          "{PIPE_CLEAR_COLOR0}" 0 "{}" 0 "[]"]
    clear_after_draw_starts_new_job
      [of example_context "{}" 0 "{}" 0
          "[Call_clear {PIPE_CLEAR_COLOR0} 0,
            Call_draw example_draw_info
                      \<lparr>draw_start = 0, draw_count = 3, prim_ok = True\<rparr>,
            Call_clear {PIPE_CLEAR_DEPTH} 0]"]
  by (simp add: example_context_def lima_job_has_draw_pending_def lima_job_new_def
      list_all_iff)

text \<open>
  Claim C9. A draw for which no fragment or no vertex shader is bound, or whose clipped
  scissor is degenerate, returns with the current job and the submitted jobs unchanged:
  the context is either untouched or differs only in its clipped scissor. The call
  returns normally, and the remaining draws of the batch are processed from that state.
\<close>

theorem draw_skipped_without_shader_or_area:
  assumes "\<not> bind_fs ctx \<or> \<not> bind_vs ctx \<or>
           lima_is_scissor_zero (lima_clip_scissor_to_viewport ctx)"
  shows "current_job (lima_draw_vbo_single ctx info draw) = current_job ctx \<and>
         submitted_jobs (lima_draw_vbo_single ctx info draw) = submitted_jobs ctx \<and>
         (lima_draw_vbo_single ctx info draw = ctx \<or>
          lima_draw_vbo_single ctx info draw = lima_clip_scissor_to_viewport ctx) \<and>
         lima_draw_vbo ctx info (draw # draws) =
           Some (lima_draw_vbo_each (lima_draw_vbo_single ctx info draw) info draws)"
proof -
  have skip: "lima_draw_vbo_single ctx info draw = ctx \<or>
              lima_draw_vbo_single ctx info draw = lima_clip_scissor_to_viewport ctx"
    using assms unfolding lima_draw_vbo_single_def Let_def by auto
  have clip: "current_job (lima_clip_scissor_to_viewport ctx) = current_job ctx \<and>
              submitted_jobs (lima_clip_scissor_to_viewport ctx) = submitted_jobs ctx"
    by (simp add: lima_clip_scissor_to_viewport_def Let_def)
  have batch: "lima_draw_vbo ctx info (draw # draws) =
           Some (lima_draw_vbo_each (lima_draw_vbo_single ctx info draw) info draws)"
    by (cases draws) (simp_all add: lima_draw_vbo_def)
  from skip clip batch show ?thesis by auto
qed

theorem draw_skipped_without_shader_or_area_witness:
  "\<not> bind_vs (example_context\<lparr>bind_vs := False\<rparr>) \<and>
   current_job (lima_draw_vbo_single (example_context\<lparr>bind_vs := False\<rparr>)
      example_draw_info
      \<lparr>draw_start = 0, draw_count = 3, prim_ok = True\<rparr>) = None \<and>
   lima_is_scissor_zero (lima_clip_scissor_to_viewport
      (example_context\<lparr>scissor := \<lparr>minx = 10, maxx = 10, miny = 10, maxy = 60\<rparr>\<rparr>)) \<and>
   current_job (lima_draw_vbo_single
      (example_context\<lparr>scissor := \<lparr>minx = 10, maxx = 10, miny = 10, maxy = 60\<rparr>\<rparr>)
      example_draw_info
      \<lparr>draw_start = 0, draw_count = 3, prim_ok = True\<rparr>) = None"
  using draw_skipped_without_shader_or_area
      [of "example_context\<lparr>bind_vs := False\<rparr>"
          example_draw_info
          "\<lparr>draw_start = 0, draw_count = 3, prim_ok = True\<rparr>" "[]"]
    draw_skipped_without_shader_or_area
      [of "example_context\<lparr>scissor := \<lparr>minx = 10, maxx = 10, miny = 10, maxy = 60\<rparr>\<rparr>"
          example_draw_info
          "\<lparr>draw_start = 0, draw_count = 3, prim_ok = True\<rparr>" "[]"]
  by (simp add: example_context_def lima_is_scissor_zero_def clip_explicit
      scissor_or_framebuffer_def viewport_in_framebuffer_def Let_def)

lemma pending_draw_view: "pending_view (draw_view v)"
  by (cases v rule: draw_view.cases) (simp_all add: pending_view_def)

lemma pending_count_loop:
  "pending_view (view_of_context ctx) \<or> 0 < n \<Longrightarrow>
   pending_view (view_of_context (lima_draw_vbo_count_loop ctx info local_draw start n))"
proof (induction ctx info local_draw start n rule: lima_draw_vbo_count_loop.induct)
  case (1 ctx info local_draw start n)
  show ?case
  proof (cases "n = 0")
    case True
    then show ?thesis using "1.prems" by simp
  next
    case False
    obtain this_count step where u: "u_split_draw 65535 n = (this_count, step)"
      by (cases "u_split_draw 65535 n")
    have "pending_view (view_of_context (lima_draw_vbo_update ctx info
            (local_draw\<lparr>draw_start := start, draw_count := this_count\<rparr>))) \<or> 0 < n - step"
      by (simp add: view_draw_vbo_update pending_draw_view)
    from "1.IH" [OF False u [symmetric] this] False u show ?thesis
      by (simp del: lima_draw_vbo_count_loop.simps
               add: lima_draw_vbo_count_loop.simps [of ctx info local_draw start n])
  qed
qed

lemma draw_passing_checks_is_packed:
  assumes "prim_ok draw" "bind_fs ctx" "bind_vs ctx"
    and "\<not> lima_is_scissor_zero (lima_clip_scissor_to_viewport ctx)"
    and "fs_state_ok ctx" "vs_state_ok ctx"
    and "index_size info \<noteq> 0 \<or> 0 < draw_count draw"
  shows "\<exists>j. current_job (lima_draw_vbo_single ctx info draw) = Some j \<and>
             lima_job_has_draw_pending j"
proof -
  let ?c1 = "lima_clip_scissor_to_viewport ctx"
  have ok: "fs_state_ok ?c1" "vs_state_ok ?c1"
    using assms(5,6) by (simp_all add: lima_clip_scissor_to_viewport_def Let_def)
  obtain a b where g: "lima_job_get ?c1 = (a, b)" by (cases "lima_job_get ?c1")
  let ?c5 = "job_update (lima_job_add_bo LIMA_PIPE_PP Bo_fs LIMA_SUBMIT_BO_READ)
              (job_update (lima_job_add_bo LIMA_PIPE_GP Bo_vs LIMA_SUBMIT_BO_READ)
                (job_update (\<lambda>j. j\<lparr>pp_max_stack_size :=
                                       max (pp_max_stack_size j) (fs_stack_size a)\<rparr>) a))"
  have i: "pending_view (view_of_context (lima_draw_vbo_indexed ?c5 info draw))"
    by (simp only: view_draw_vbo_indexed pending_draw_view)
  have c: "0 < draw_count draw \<Longrightarrow>
           pending_view (view_of_context (lima_draw_vbo_count ?c5 info draw))"
    unfolding lima_draw_vbo_count_def by (rule pending_count_loop) simp
  have "pending_view (view_of_context (lima_draw_vbo_single ctx info draw))"
    unfolding lima_draw_vbo_single_def Let_def g
    using assms(1-4,7) ok i c by auto
  then show ?thesis
    by (cases "current_job (lima_draw_vbo_single ctx info draw)")
       (simp_all add: pending_view_def view_of_context_def view_of_job_def)
qed

text \<open>
  The draw with the viewport wholly to the left of the framebuffer passes the test for a
  degenerate rectangle and is packed into the job.
\<close>

lemma draw_left_of_framebuffer_is_packed:
  "\<exists>j. current_job
          (lima_draw_vbo_single
             (example_context\<lparr>viewport := \<lparr>viewport_left = - 200, viewport_right = - 100,
                                              viewport_bottom = 0, viewport_top = 50\<rparr>\<rparr>)
             example_draw_info \<lparr>draw_start = 0, draw_count = 3, prim_ok = True\<rparr>) = Some j \<and>
        lima_job_has_draw_pending j"
proof (rule draw_passing_checks_is_packed)
  show "\<not> lima_is_scissor_zero
     (lima_clip_scissor_to_viewport
        (example_context\<lparr>viewport := \<lparr>viewport_left = - 200, viewport_right = - 100,
                                         viewport_bottom = 0, viewport_top = 50\<rparr>\<rparr>))"
    by (simp add: lima_is_scissor_zero_def clip_left_of_framebuffer)
qed (simp_all add: example_context_def)

end
